theory Spec2Isabelle
  imports Complex_Main "HOL-Library.Word"
begin

section \<open>Data model\<close>

text \<open>
  The program works on \<^verbatim>\<open>float\<close> coordinates. The number type is left as a type
  variable \<open>'f\<close>: the definitions use only the operations the source uses (\<open>+\<close>, \<open>-\<close>,
  \<open>*\<close>, \<open>/\<close>, the literals \<open>0\<close> and \<open>1.f\<close>), and the three library operations that
  produce a float from something else are collected in a record that every function
  takes as its first argument. Whatever is proved for every \<open>'f\<close> and every such record
  holds for binary32 arithmetic too, NaN and infinities included, since no law of
  arithmetic has been used. Statements that need laws of arithmetic are made for exact
  arithmetic (a commutative ring, or the reals) and say so.
\<close>

record 'f fenv =
  of_size :: "nat \<Rightarrow> 'f"       \<comment> \<open>\<^verbatim>\<open>static_cast<float>\<close> of a \<^verbatim>\<open>size_t\<close>\<close>
  of_int32 :: "int \<Rightarrow> 'f"      \<comment> \<open>\<^verbatim>\<open>static_cast<float>\<close> of an \<^verbatim>\<open>int\<close>\<close>
  hypot :: "'f \<Rightarrow> 'f \<Rightarrow> 'f"   \<comment> \<open>\<^verbatim>\<open>std::hypot\<close>\<close>

text \<open>
  Exact real arithmetic: the casts are the embeddings, \<open>hypot\<close> is the Euclidean norm.
  In HOL \<open>a / 0\<close> is \<open>0\<close>; no statement below that is made in this arithmetic depends
  on it (the divisor \<open>N - 1\<close> is zero only when \<open>N = 1\<close>, and where that case is covered
  there is one control point, whose evaluation does not read the parameter).
\<close>

definition real_env :: "real fenv" where
  "real_env = \<lparr>of_size = real, of_int32 = real_of_int,
               hypot = (\<lambda>a b. sqrt (a\<^sup>2 + b\<^sup>2))\<rparr>"

text \<open>\<^verbatim>\<open>struct vec2\<close>, \<^verbatim>\<open>struct vertex\<close> and \<^verbatim>\<open>struct bezier_vertex : public vertex\<close>.
  The field \<^verbatim>\<open>dist\<close> is called \<open>dist_v\<close> here, \<open>dist\<close> being the metric of HOL.\<close>

type_synonym rgba = "8 word \<times> 8 word \<times> 8 word \<times> 8 word"

record 'f vec2 =
  x :: 'f
  y :: 'f

record 'f vertex =
  position :: "'f vec2"
  color :: rgba

record 'f bezier_vertex = "'f vertex" +
  dist_v :: 'f

text \<open>
  \<^verbatim>\<open>std::size_t\<close> is taken to be 64 bits wide. Values of that type are natural numbers
  below \<open>2 ^ 64\<close>, and the two operations of the program that can leave that range wrap
  around: the product \<^verbatim>\<open>bezier_pts.size() * quality\<close> and the increment
  \<^verbatim>\<open>quality++\<close>. \<^verbatim>\<open>N - 1\<close> is computed in \<^verbatim>\<open>size_t\<close> as well.
\<close>

definition size_mul :: "nat \<Rightarrow> nat \<Rightarrow> nat" where
  "size_mul a b = (a * b) mod 2 ^ 64"

definition size_inc :: "nat \<Rightarrow> nat" where
  "size_inc a = (a + 1) mod 2 ^ 64"

definition size_sub :: "nat \<Rightarrow> nat \<Rightarrow> nat" where
  "size_sub a b = (a + 2 ^ 64 - b mod 2 ^ 64) mod 2 ^ 64"

text \<open>
  \<^verbatim>\<open>max_size()\<close> of the two vectors: the largest \<^verbatim>\<open>ptrdiff_t\<close> divided by the size of an
  element, as libstdc++ computes it. A \<^verbatim>\<open>vertex\<close> has 12 bytes (two floats and four bytes of
  colour), a \<^verbatim>\<open>bezier_vertex\<close> 16 (one more float). Other standard libraries give values
  up to twice as large; the proofs below use only that both values are below \<open>2 ^ 63\<close>.
\<close>

definition max_size_pts :: nat where
  "max_size_pts = (2 ^ 63 - 1) div 12"

definition max_size_spline :: nat where
  "max_size_spline = (2 ^ 63 - 1) div 16"

section \<open>The evaluator: \<^verbatim>\<open>bezier\<close>\<close>

text \<open>
  Reading \<^verbatim>\<open>points[0]\<close> of an empty vector is undefined behaviour; the model makes it
  the error value \<open>Out_of_range\<close>. \<open>Length_error\<close> is the \<^verbatim>\<open>std::length_error\<close> that a
  vector throws when it is asked to hold more than \<^verbatim>\<open>max_size()\<close> elements
  (\<^verbatim>\<open>bezier_spline.reserve(N)\<close>, \<^verbatim>\<open>bezier_pts.push_back\<close>); it leaves \<^verbatim>\<open>main\<close> through its
  \<^verbatim>\<open>catch\<close>, so the program ends.
\<close>

datatype error = Out_of_range | Length_error

text \<open>
  The inner loop \<^verbatim>\<open>for (i = 0; i + k + 1 < vertices.size(); ++i)\<close>, with \<open>n\<close> the size
  of \<^verbatim>\<open>vertices\<close>. The source assigns \<^verbatim>\<open>points[i].x\<close> and then \<^verbatim>\<open>points[i].y\<close>; the
  second assignment reads \<^verbatim>\<open>points[i].y\<close> and \<^verbatim>\<open>points[i + 1].y\<close>, which the first
  has not changed. The counters stay at most \<open>n\<close>, so they do not wrap.
\<close>

function bezier_inner :: "nat \<Rightarrow> nat \<Rightarrow> nat \<Rightarrow> 'f::{plus,minus,times,one} \<Rightarrow> 'f vec2 list \<Rightarrow> 'f vec2 list" where
  "bezier_inner n k i t points =
     (if i + k + 1 < n
      then bezier_inner n k (i + 1) t
             (points[i := \<lparr>x = x (points ! i) * (1 - t) + x (points ! (i + 1)) * t,
                           y = y (points ! i) * (1 - t) + y (points ! (i + 1)) * t\<rparr>])
      else points)"
  by pat_completeness auto
termination
  by (relation "measure (\<lambda>(n, k, i, t, points). n - (i + k))") auto

text \<open>The outer loop \<^verbatim>\<open>for (k = 0; k + 1 < vertices.size(); ++k)\<close>.\<close>

function bezier_outer :: "nat \<Rightarrow> nat \<Rightarrow> 'f::{plus,minus,times,one} \<Rightarrow> 'f vec2 list \<Rightarrow> 'f vec2 list" where
  "bezier_outer n k t points =
     (if k + 1 < n then bezier_outer n (k + 1) t (bezier_inner n k 0 t points) else points)"
  by pat_completeness auto
termination
  by (relation "measure (\<lambda>(n, k, t, points). n - k)") auto

text \<open>
  \<^verbatim>\<open>bezier\<close>: the working copy \<^verbatim>\<open>points\<close> holds the positions of the vertices (the first
  loop of the source copies them one by one), the two loops run, and \<^verbatim>\<open>points[0]\<close> is
  returned.
\<close>

definition bezier :: "'f::{plus,minus,times,one} vertex list \<Rightarrow> 'f \<Rightarrow> error + 'f vec2" where
  "bezier vertices t =
     (case bezier_outer (length vertices) 0 t (map position vertices) of
        [] \<Rightarrow> Inl Out_of_range
      | p # _ \<Rightarrow> Inr p)"

section \<open>The tessellator: \<^verbatim>\<open>update_bezier\<close>\<close>

text \<open>
  The state that the lambdas of \<^verbatim>\<open>main\<close> capture by reference: the control points, the
  tessellated spline and the quality; the contents of the two GPU buffers, as the last
  \<^verbatim>\<open>glBufferData\<close> call left them; and what has been written to \<^verbatim>\<open>std::cout\<close>.
\<close>

record 'f state =
  bezier_pts :: "'f vertex list"
  bezier_spline :: "'f bezier_vertex list"
  quality :: nat
  vbo_pts :: "'f vertex list"
  vbo_spline :: "'f bezier_vertex list"
  cout :: "'f list"

text \<open>The parameter of sample \<open>i\<close>: \<^verbatim>\<open>static_cast<float>(i) / (N - 1)\<close>.\<close>

definition t_param :: "'f::inverse fenv \<Rightarrow> nat \<Rightarrow> nat \<Rightarrow> 'f" where
  "t_param E N i = of_size E i / of_size E (size_sub N 1)"

text \<open>
  The body of the loop after the call of \<^verbatim>\<open>bezier\<close>: the arc length of the new sample
  is printed and the sample is pushed.
\<close>

definition push_sample ::
  "'f::{plus,minus,zero} fenv \<Rightarrow> 'f vec2 \<Rightarrow> 'f bezier_vertex list \<times> 'f list
     \<Rightarrow> 'f bezier_vertex list \<times> 'f list" where
  "push_sample E bezier_spline_part acc =
     (case acc of (spline, out) \<Rightarrow>
        let previous_dist = (if spline = [] then 0 else dist_v (last spline));
            d = (if spline = [] then 0
                 else hypot E (x (position (last spline)) - x bezier_spline_part)
                              (y (position (last spline)) - y bezier_spline_part)
                      + previous_dist)
        in (spline @ [\<lparr>position = bezier_spline_part, color = (180, 255, 180, 255), dist_v = d\<rparr>],
            out @ [d]))"

text \<open>
  The loop \<^verbatim>\<open>for (size_t i = 0; i < N; i++)\<close>. An error of \<^verbatim>\<open>bezier\<close> ends it. The
  counter stays at most \<open>N\<close>, so it does not wrap.
\<close>

function spline_loop ::
  "'f::{plus,minus,times,inverse,zero,one} fenv \<Rightarrow> 'f vertex list \<Rightarrow> nat \<Rightarrow> nat
     \<Rightarrow> 'f bezier_vertex list \<times> 'f list \<Rightarrow> error + 'f bezier_vertex list \<times> 'f list" where
  "spline_loop E pts N i acc =
     (if i < N
      then (case bezier pts (t_param E N i) of
              Inl e \<Rightarrow> Inl e
            | Inr bezier_spline_part \<Rightarrow> spline_loop E pts N (i + 1) (push_sample E bezier_spline_part acc))
      else Inr acc)"
  by pat_completeness auto
termination
  by (relation "measure (\<lambda>(E, pts, N, i, acc). N - i)") auto

text \<open>
  \<^verbatim>\<open>update_bezier\<close>: \<open>N\<close> is the product in \<^verbatim>\<open>size_t\<close>; the spline is cleared;
  \<^verbatim>\<open>reserve(N)\<close> throws when \<open>N\<close> exceeds \<^verbatim>\<open>max_size()\<close>; otherwise the spline is filled
  again and both buffers are uploaded (\<^verbatim>\<open>update_pts_vbo\<close>, \<^verbatim>\<open>update_spline_vbo\<close>). Memory for
  up to \<^verbatim>\<open>max_size()\<close> elements is taken to be there (no \<^verbatim>\<open>std::bad_alloc\<close>).
\<close>

definition update_pts_vbo :: "'f state \<Rightarrow> 'f state" where
  "update_pts_vbo s = s\<lparr>vbo_pts := bezier_pts s\<rparr>"

definition update_spline_vbo :: "'f state \<Rightarrow> 'f state" where
  "update_spline_vbo s = s\<lparr>vbo_spline := bezier_spline s\<rparr>"

definition update_bezier ::
  "'f::{plus,minus,times,inverse,zero,one} fenv \<Rightarrow> 'f state \<Rightarrow> error + 'f state" where
  "update_bezier E s =
     (let N = size_mul (length (bezier_pts s)) (quality s) in
      if max_size_spline < N then Inl Length_error
      else case spline_loop E (bezier_pts s) N 0 ([], cout s) of
             Inl e \<Rightarrow> Inl e
           | Inr (spline, out) \<Rightarrow>
               Inr (update_spline_vbo (update_pts_vbo (s\<lparr>bezier_spline := spline, cout := out\<rparr>))))"

section \<open>The event loop of \<^verbatim>\<open>main\<close>\<close>

text \<open>
  The events that reach the curve: the two mouse buttons and the two arrow keys. Every
  other event (quit, resize, other keys and buttons) leaves this state alone.
  \<^verbatim>\<open>push_back\<close> on a vector that holds \<^verbatim>\<open>max_size()\<close> elements throws.
\<close>

datatype event = Mouse_left int int | Mouse_right | Key_left | Key_right | Other_event

definition init_state :: "'f state" where
  "init_state = \<lparr>bezier_pts = [], bezier_spline = [], quality = 4,
                 vbo_pts = [], vbo_spline = [], cout = []\<rparr>"

fun handle_event ::
  "'f::{plus,minus,times,inverse,zero,one} fenv \<Rightarrow> 'f state \<Rightarrow> event \<Rightarrow> error + 'f state" where
  "handle_event E s (Mouse_left mouse_x mouse_y) =
     (if max_size_pts \<le> length (bezier_pts s) then Inl Length_error
      else update_bezier E
             (s\<lparr>bezier_pts := bezier_pts s @
                  [\<lparr>position = \<lparr>x = of_int32 E mouse_x, y = of_int32 E mouse_y\<rparr>,
                    color = (255, 255, 255, 255)\<rparr>]\<rparr>))"
| "handle_event E s Mouse_right =
     (if bezier_pts s \<noteq> [] then update_bezier E (s\<lparr>bezier_pts := butlast (bezier_pts s)\<rparr>)
      else Inr s)"
| "handle_event E s Key_left =
     (if quality s > 1 then update_bezier E (s\<lparr>quality := quality s - 1\<rparr>) else Inr s)"
| "handle_event E s Key_right = update_bezier E (s\<lparr>quality := size_inc (quality s)\<rparr>)"
| "handle_event E s Other_event = Inr s"

text \<open>The events of a run, one after the other; an error ends the run.\<close>

fun run ::
  "'f::{plus,minus,times,inverse,zero,one} fenv \<Rightarrow> 'f state \<Rightarrow> event list \<Rightarrow> error + 'f state" where
  "run E s [] = Inr s"
| "run E s (ev # evs) = (case handle_event E s ev of Inl e \<Rightarrow> Inl e | Inr s' \<Rightarrow> run E s' evs)"

text \<open>The states that the program can be in after some events.\<close>

inductive reachable :: "'f::{plus,minus,times,inverse,zero,one} fenv \<Rightarrow> 'f state \<Rightarrow> bool"
  for E :: "'f fenv" where
  reach_init: "reachable E init_state"
| reach_step: "reachable E s \<Longrightarrow> handle_event E s ev = Inr s' \<Longrightarrow> reachable E s'"

section \<open>Auxiliary definitions\<close>

text \<open>
  One interpolation step as the source writes it, and as the specification writes it
  (\<open>(1 - t) \<cdot> p + t \<cdot> q\<close>, on both coordinates).
\<close>

definition lerp_code :: "'f::{plus,minus,times,one} \<Rightarrow> 'f vec2 \<Rightarrow> 'f vec2 \<Rightarrow> 'f vec2" where
  "lerp_code t p q = \<lparr>x = x p * (1 - t) + x q * t, y = y p * (1 - t) + y q * t\<rparr>"

definition lerp_spec :: "'f::{plus,minus,times,one} \<Rightarrow> 'f vec2 \<Rightarrow> 'f vec2 \<Rightarrow> 'f vec2" where
  "lerp_spec t p q = \<lparr>x = (1 - t) * x p + t * x q, y = (1 - t) * y p + t * y q\<rparr>"

text \<open>
  The evaluator in the words of the specification: for \<open>k\<close> from \<open>0\<close> to \<open>count - 2\<close>, for
  \<open>i\<close> from \<open>0\<close> to \<open>count - 2 - k\<close>, \<open>points[i]\<close> becomes
  \<open>(1 - t) \<cdot> points[i] + t \<cdot> points[i + 1]\<close>; the point left at index \<open>0\<close> is returned.
  The ranges are written with their exclusive upper ends \<open>count - 1\<close> and
  \<open>count - 1 - k\<close>, so that they are empty for a single point.
\<close>

definition evaluate_spec :: "'f::{plus,minus,times,one} vec2 list \<Rightarrow> 'f \<Rightarrow> 'f vec2" where
  "evaluate_spec points t =
     hd (fold (\<lambda>k ps. fold (\<lambda>i ps. ps[i := lerp_spec t (ps ! i) (ps ! (i + 1))])
                         [0..<length points - 1 - k] ps)
              [0..<length points - 1] points)"

text \<open>The arc length that \<^verbatim>\<open>update_bezier\<close> gives to a new sample at \<open>p\<close>.\<close>

definition sample_dist :: "'f::{plus,minus,zero} fenv \<Rightarrow> 'f vec2 \<Rightarrow> 'f bezier_vertex list \<Rightarrow> 'f" where
  "sample_dist E p spline =
     (if spline = [] then 0
      else hypot E (x (position (last spline)) - x p) (y (position (last spline)) - y p)
           + dist_v (last spline))"

text \<open>
  The spline that the loop of \<^verbatim>\<open>update_bezier\<close> builds from the control points and the
  quality, starting from the cleared vector. The loop never fails (shown below), so the
  first case is never taken.
\<close>

definition tessellate ::
  "'f::{plus,minus,times,inverse,zero,one} fenv \<Rightarrow> 'f vertex list \<Rightarrow> nat \<Rightarrow> 'f bezier_vertex list" where
  "tessellate E pts q =
     (case spline_loop E pts (size_mul (length pts) q) 0 ([], []) of
        Inl e \<Rightarrow> []
      | Inr (spline, out) \<Rightarrow> spline)"

text \<open>The number of samples that \<^verbatim>\<open>update_bezier\<close> computes for a state.\<close>

definition num_samples :: "'f state \<Rightarrow> nat" where
  "num_samples s = size_mul (length (bezier_pts s)) (quality s)"

text \<open>The state that \<^verbatim>\<open>update_bezier\<close> leaves when it returns.\<close>

definition rebuilt :: "'f::{plus,minus,times,inverse,zero,one} fenv \<Rightarrow> 'f state \<Rightarrow> 'f state" where
  "rebuilt E s =
     s\<lparr>bezier_spline := tessellate E (bezier_pts s) (quality s),
       cout := cout s @ map dist_v (tessellate E (bezier_pts s) (quality s)),
       vbo_pts := bezier_pts s,
       vbo_spline := tessellate E (bezier_pts s) (quality s)\<rparr>"

text \<open>
  A property of numbers that every operation of the program keeps, the division only
  when the divisor is the cast of a positive size. Read \<open>fin\<close> as ``is finite'': the
  property says that a non-finite value can only come from a division by zero
  (overflow is left out).
\<close>

definition closed_under ::
  "'f::{plus,minus,times,inverse,zero,one} fenv \<Rightarrow> ('f \<Rightarrow> bool) \<Rightarrow> bool" where
  "closed_under E fin \<longleftrightarrow>
     fin 0 \<and> fin 1 \<and>
     (\<forall>a b. fin a \<longrightarrow> fin b \<longrightarrow>
        fin (a + b) \<and> fin (a - b) \<and> fin (a * b) \<and> fin (hypot E a b)) \<and>
     (\<forall>i d. 0 < d \<longrightarrow> fin (of_size E i / of_size E d)) \<and>
     (\<forall>n. fin (of_int32 E n))"

definition fin_vec :: "('f \<Rightarrow> bool) \<Rightarrow> 'f vec2 \<Rightarrow> bool" where
  "fin_vec fin p \<longleftrightarrow> fin (x p) \<and> fin (y p)"

definition fin_sample :: "('f \<Rightarrow> bool) \<Rightarrow> 'f bezier_vertex \<Rightarrow> bool" where
  "fin_sample fin b \<longleftrightarrow> fin_vec fin (position b) \<and> fin (dist_v b)"

text \<open>
  An arithmetic with a NaN, to have one interpretation in which the division by zero
  shows: the reals and one more value, which every operation hands on and which the
  division by zero produces.
\<close>

datatype nanreal = Fin real | NaN

instantiation nanreal :: "{plus,minus,times,inverse,zero,one}"
begin

definition zero_nanreal :: nanreal where
  "zero_nanreal = Fin 0"

definition one_nanreal :: nanreal where
  "one_nanreal = Fin 1"

definition plus_nanreal :: "nanreal \<Rightarrow> nanreal \<Rightarrow> nanreal" where
  "plus_nanreal a b = (case (a, b) of (Fin u, Fin v) \<Rightarrow> Fin (u + v) | _ \<Rightarrow> NaN)"

definition minus_nanreal :: "nanreal \<Rightarrow> nanreal \<Rightarrow> nanreal" where
  "minus_nanreal a b = (case (a, b) of (Fin u, Fin v) \<Rightarrow> Fin (u - v) | _ \<Rightarrow> NaN)"

definition times_nanreal :: "nanreal \<Rightarrow> nanreal \<Rightarrow> nanreal" where
  "times_nanreal a b = (case (a, b) of (Fin u, Fin v) \<Rightarrow> Fin (u * v) | _ \<Rightarrow> NaN)"

definition divide_nanreal :: "nanreal \<Rightarrow> nanreal \<Rightarrow> nanreal" where
  "divide_nanreal a b =
     (case (a, b) of (Fin u, Fin v) \<Rightarrow> if v = 0 then NaN else Fin (u / v) | _ \<Rightarrow> NaN)"

definition inverse_nanreal :: "nanreal \<Rightarrow> nanreal" where
  "inverse_nanreal a = (case a of Fin u \<Rightarrow> if u = 0 then NaN else Fin (inverse u) | NaN \<Rightarrow> NaN)"

instance ..

end

definition nan_env :: "nanreal fenv" where
  "nan_env = \<lparr>of_size = (\<lambda>n. Fin (real n)), of_int32 = (\<lambda>n. Fin (real_of_int n)),
              hypot = (\<lambda>a b. case (a, b) of (Fin u, Fin v) \<Rightarrow> Fin (sqrt (u\<^sup>2 + v\<^sup>2)) | _ \<Rightarrow> NaN)\<rparr>"

text \<open>
  Concrete data for the examples: a control point as the left mouse button makes it, a
  sample of the spline, and the state of \<^verbatim>\<open>main\<close> with given control points and quality
  and nothing tessellated, uploaded or printed so far.
\<close>

definition control_point :: "'f \<Rightarrow> 'f \<Rightarrow> 'f vertex" where
  "control_point px py = \<lparr>position = \<lparr>x = px, y = py\<rparr>, color = (255, 255, 255, 255)\<rparr>"

definition sample :: "'f \<Rightarrow> 'f \<Rightarrow> 'f \<Rightarrow> 'f bezier_vertex" where
  "sample px py d = \<lparr>position = \<lparr>x = px, y = py\<rparr>, color = (180, 255, 180, 255), dist_v = d\<rparr>"

definition state_of :: "'f vertex list \<Rightarrow> nat \<Rightarrow> 'f state" where
  "state_of pts q = \<lparr>bezier_pts = pts, bezier_spline = [], quality = q,
                      vbo_pts = [], vbo_spline = [], cout = []\<rparr>"

text \<open>
  The recursive equations of the loops are applied by hand, not by the simplifier.
\<close>

declare bezier_inner.simps [simp del] bezier_outer.simps [simp del] spline_loop.simps [simp del]

lemmas eval_defs = update_bezier_def update_pts_vbo_def update_spline_vbo_def size_mul_def
  size_sub_def size_inc_def max_size_spline_def max_size_pts_def t_param_def push_sample_def bezier_def real_env_def
  spline_loop.simps bezier_outer.simps bezier_inner.simps control_point_def state_of_def sample_def

lemmas nan_defs = nan_env_def zero_nanreal_def one_nanreal_def plus_nanreal_def minus_nanreal_def
  times_nanreal_def divide_nanreal_def

section \<open>The evaluator\<close>

subsection \<open>One step of each loop\<close>

lemma bezier_inner_step:
  "i + k + 1 < n \<Longrightarrow>
   bezier_inner n k i t points =
     bezier_inner n k (i + 1) t (points[i := lerp_code t (points ! i) (points ! (i + 1))])"
  by (subst bezier_inner.simps) (simp add: lerp_code_def)

lemma bezier_inner_stop: "\<not> i + k + 1 < n \<Longrightarrow> bezier_inner n k i t points = points"
  by (subst bezier_inner.simps) simp

lemma bezier_outer_step:
  "k + 1 < n \<Longrightarrow> bezier_outer n k t points = bezier_outer n (k + 1) t (bezier_inner n k 0 t points)"
  by (subst bezier_outer.simps) simp

lemma bezier_outer_stop: "\<not> k + 1 < n \<Longrightarrow> bezier_outer n k t points = points"
  by (subst bezier_outer.simps) simp

lemma length_bezier_inner [simp]: "length (bezier_inner n k i t points) = length points"
proof (induction n k i t points rule: bezier_inner.induct)
  case (1 n k i t points)
  show ?case
  proof (cases "i + k + 1 < n")
    case True
    show ?thesis
      by (subst bezier_inner.simps) (simp only: True if_True "1.IH"[OF True] length_list_update)
  next
    case False
    show ?thesis by (simp only: bezier_inner_stop[OF False])
  qed
qed

lemma length_bezier_outer [simp]: "length (bezier_outer n k t points) = length points"
proof (induction n k t points rule: bezier_outer.induct)
  case (1 n k t points)
  show ?case
  proof (cases "k + 1 < n")
    case True
    show ?thesis
      by (subst bezier_outer.simps) (simp only: True if_True "1.IH"[OF True] length_bezier_inner)
  next
    case False
    show ?thesis by (simp only: bezier_outer_stop[OF False])
  qed
qed

lemma bezier_inner_nth:
  "length points = n \<Longrightarrow> j < n \<Longrightarrow>
   bezier_inner n k i t points ! j =
     (if i \<le> j \<and> j + k + 1 < n then lerp_code t (points ! j) (points ! (j + 1)) else points ! j)"
proof (induction n k i t points rule: bezier_inner.induct)
  case (1 n k i t points)
  show ?case
  proof (cases "i + k + 1 < n")
    case True
    let ?ps = "points[i := lerp_code t (points ! i) (points ! (i + 1))]"
    have len: "length ?ps = n" using "1.prems" by simp
    have IH: "bezier_inner n k (i + 1) t ?ps ! j =
      (if i + 1 \<le> j \<and> j + k + 1 < n then lerp_code t (?ps ! j) (?ps ! (j + 1)) else ?ps ! j)"
      using "1.IH"[OF True len[unfolded lerp_code_def] "1.prems"(2)] by (simp add: lerp_code_def)
    show ?thesis
      unfolding bezier_inner_step[OF True] IH using True "1.prems" by (auto simp: nth_list_update)
  next
    case False
    then show ?thesis by (auto simp: bezier_inner_stop)
  qed
qed

lemma bezier_Inr:
  "vertices \<noteq> [] \<Longrightarrow>
   bezier vertices t = Inr (bezier_outer (length vertices) 0 t (map position vertices) ! 0)"
proof -
  assume ne: "vertices \<noteq> []"
  let ?r = "bezier_outer (length vertices) 0 t (map position vertices)"
  have "length ?r \<noteq> 0" using ne by simp
  then obtain p ps where "?r = p # ps" by (cases ?r) auto
  then show ?thesis by (simp add: bezier_def)
qed

lemma bezier_empty: "bezier [] t = Inl Out_of_range"
  by (simp add: bezier_def bezier_outer_stop)

lemma bezier_single: "bezier [a] t = Inr (position a)"
  by (simp add: bezier_def bezier_outer_stop)

lemma bezier_two: "bezier [a, b] t = Inr (lerp_code t (position a) (position b))"
  by (simp add: bezier_def bezier_outer_step bezier_outer_stop bezier_inner_step bezier_inner_stop)

subsection \<open>The parameters 0 and 1\<close>

lemma lerp_code_0 [simp]: "lerp_code (0::'f::ring_1) p q = p"
  by (simp add: lerp_code_def)

lemma lerp_code_1 [simp]: "lerp_code (1::'f::ring_1) p q = q"
  by (simp add: lerp_code_def)

lemma lerp_code_spec: "lerp_code (t::'f::comm_ring_1) p q = lerp_spec t p q"
  by (simp add: lerp_code_def lerp_spec_def mult.commute)

lemma bezier_inner_0: "bezier_inner n k i (0::'f::ring_1) points = points"
proof (induction "n - (i + k)" arbitrary: i points)
  case 0
  then show ?case by (simp add: bezier_inner_stop)
next
  case (Suc m)
  then have lt: "i + k + 1 < n \<or> \<not> i + k + 1 < n" by simp
  show ?case
  proof (cases "i + k + 1 < n")
    case True
    have "m = n - (i + 1 + k)" using Suc.hyps(2) by simp
    from Suc.hyps(1)[OF this] show ?thesis
      by (simp add: bezier_inner_step[OF True])
  next
    case False
    show ?thesis by (simp only: bezier_inner_stop[OF False])
  qed
qed

lemma bezier_outer_0: "bezier_outer n k (0::'f::ring_1) points = points"
proof (induction "n - k" arbitrary: k points)
  case 0
  then show ?case by (simp add: bezier_outer_stop)
next
  case (Suc m)
  show ?case
  proof (cases "k + 1 < n")
    case True
    have "m = n - (k + 1)" using Suc.hyps(2) by simp
    from Suc.hyps(1)[OF this] show ?thesis
      by (simp add: bezier_outer_step[OF True] bezier_inner_0)
  next
    case False
    show ?thesis by (simp only: bezier_outer_stop[OF False])
  qed
qed

lemma bezier_at_0: "vertices \<noteq> [] \<Longrightarrow> bezier vertices (0::'f::ring_1) = Inr (position (hd vertices))"
  by (simp add: bezier_Inr bezier_outer_0 hd_conv_nth)

lemma bezier_outer_1:
  "length points = n \<Longrightarrow> k < n \<Longrightarrow>
   bezier_outer n k (1::'f::ring_1) points ! 0 = points ! (n - 1 - k)"
proof (induction "n - k" arbitrary: k points)
  case 0
  then show ?case by simp
next
  case (Suc m)
  show ?case
  proof (cases "k + 1 < n")
    case True
    have m: "m = n - (k + 1)" using Suc.hyps(2) by simp
    have len: "length (bezier_inner n k 0 (1::'f) points) = n" using Suc.prems by simp
    have "bezier_outer n (k + 1) 1 (bezier_inner n k 0 1 points) ! 0 =
          bezier_inner n k 0 (1::'f) points ! (n - 1 - (k + 1))"
      using Suc.hyps(1)[OF m len True] .
    also have "\<dots> = points ! (n - 1 - (k + 1) + 1)"
      using True Suc.prems by (subst bezier_inner_nth) auto
    also have "n - 1 - (k + 1) + 1 = n - 1 - k" using True by simp
    finally show ?thesis by (simp only: bezier_outer_step[OF True])
  next
    case False
    with Suc.prems have "n - 1 - k = 0" by simp
    then show ?thesis by (simp add: bezier_outer_stop[OF False])
  qed
qed

lemma bezier_at_1: "vertices \<noteq> [] \<Longrightarrow> bezier vertices (1::'f::ring_1) = Inr (position (last vertices))"
  by (simp add: bezier_Inr bezier_outer_1 last_conv_nth)

subsection \<open>The loops are the rounds of the specification\<close>

lemma bezier_inner_fold:
  "bezier_inner n k i (t::'f::comm_ring_1) points =
     fold (\<lambda>i ps. ps[i := lerp_spec t (ps ! i) (ps ! (i + 1))]) [i..<n - 1 - k] points"
proof (induction "n - (i + k)" arbitrary: i points)
  case 0
  then show ?case by (simp add: bezier_inner_stop)
next
  case (Suc m)
  show ?case
  proof (cases "i + k + 1 < n")
    case True
    have m: "m = n - (i + 1 + k)" using Suc.hyps(2) by simp
    have upt: "[i..<n - 1 - k] = i # [i + 1..<n - 1 - k]"
      using True by (simp add: upt_conv_Cons)
    show ?thesis
      unfolding bezier_inner_step[OF True] Suc.hyps(1)[OF m] upt
      by (simp add: lerp_code_spec)
  next
    case False
    then have "[i..<n - 1 - k] = []" by simp
    then show ?thesis by (simp only: bezier_inner_stop[OF False] fold.simps id_apply)
  qed
qed

lemma bezier_outer_fold:
  "bezier_outer n k (t::'f::comm_ring_1) points =
     fold (\<lambda>k ps. fold (\<lambda>i ps. ps[i := lerp_spec t (ps ! i) (ps ! (i + 1))]) [0..<n - 1 - k] ps)
          [k..<n - 1] points"
proof (induction "n - k" arbitrary: k points)
  case 0
  then show ?case by (simp add: bezier_outer_stop)
next
  case (Suc m)
  show ?case
  proof (cases "k + 1 < n")
    case True
    have m: "m = n - (k + 1)" using Suc.hyps(2) by simp
    have upt: "[k..<n - 1] = k # [k + 1..<n - 1]"
      using True by (simp add: upt_conv_Cons)
    show ?thesis
      unfolding bezier_outer_step[OF True] Suc.hyps(1)[OF m] upt
      by (simp add: bezier_inner_fold)
  next
    case False
    then have "[k..<n - 1] = []" by simp
    then show ?thesis by (simp only: bezier_outer_stop[OF False] fold.simps id_apply)
  qed
qed

lemma bezier_refines:
  "vertices \<noteq> [] \<Longrightarrow> bezier vertices (t::'f::comm_ring_1) = Inr (evaluate_spec (map position vertices) t)"
proof -
  assume ne: "vertices \<noteq> []"
  let ?r = "bezier_outer (length vertices) 0 t (map position vertices)"
  have "length ?r \<noteq> 0" using ne by simp
  then have "?r ! 0 = hd ?r" by (cases ?r) auto
  then show ?thesis using ne by (simp add: bezier_Inr evaluate_spec_def bezier_outer_fold)
qed

section \<open>The tessellation loop\<close>

lemma push_sample_eq:
  "push_sample E p (spline, out) =
     (spline @ [\<lparr>position = p, color = (180, 255, 180, 255), dist_v = sample_dist E p spline\<rparr>],
      out @ [sample_dist E p spline])"
  by (simp add: push_sample_def sample_dist_def Let_def)

lemma spline_loop_step:
  "i < N \<Longrightarrow> bezier pts (t_param E N i) = Inr p \<Longrightarrow>
   spline_loop E pts N i acc = spline_loop E pts N (i + 1) (push_sample E p acc)"
  by (subst spline_loop.simps) simp

lemma spline_loop_stop: "\<not> i < N \<Longrightarrow> spline_loop E pts N i acc = Inr acc"
  by (subst spline_loop.simps) simp

lemma spline_loop_total:
  "pts \<noteq> [] \<or> N \<le> i \<Longrightarrow> \<exists>r. spline_loop E pts N i acc = Inr r"
proof (induction "N - i" arbitrary: i acc)
  case 0
  then have nlt: "\<not> i < N" by simp
  show ?case by (simp add: spline_loop_stop[OF nlt])
next
  case (Suc m)
  then have lt: "i < N" and ne: "pts \<noteq> []" by auto
  have m: "m = N - (i + 1)" using Suc.hyps(2) by simp
  have b: "bezier pts (t_param E N i) = Inr (bezier_outer (length pts) 0 (t_param E N i) (map position pts) ! 0)"
    using ne by (rule bezier_Inr)
  show ?case
    unfolding spline_loop_step[OF lt b] using Suc.hyps(1)[OF m] ne by blast
qed

lemma spline_loop_fail:
  "i < N \<Longrightarrow> bezier pts (t_param E N i) = Inl e \<Longrightarrow> spline_loop E pts N i acc = Inl e"
  by (subst spline_loop.simps) simp

lemma spline_loop_invariant:
  assumes "spline_loop E pts N i acc = Inr r"
    and "I i acc"
    and "\<And>j a p. i \<le> j \<Longrightarrow> j < N \<Longrightarrow> I j a \<Longrightarrow> bezier pts (t_param E N j) = Inr p
           \<Longrightarrow> I (j + 1) (push_sample E p a)"
    and "i \<le> N"
  shows "I N r"
  using assms
proof (induction "N - i" arbitrary: i acc)
  case 0
  then have eq: "i = N" by simp
  then have nlt: "\<not> i < N" by simp
  have "r = acc" using "0.prems"(1) unfolding spline_loop_stop[OF nlt] by simp
  then show ?case using "0.prems"(2) eq by simp
next
  case (Suc m)
  then have lt: "i < N" by simp
  have m: "m = N - (i + 1)" using Suc.hyps(2) by simp
  obtain p where b: "bezier pts (t_param E N i) = Inr p"
  proof (cases "bezier pts (t_param E N i)")
    case (Inl e)
    from spline_loop_fail[OF lt Inl] Suc.prems(1) show ?thesis by simp
  next
    case (Inr p)
    then show ?thesis by (rule that)
  qed
  have run: "spline_loop E pts N (i + 1) (push_sample E p acc) = Inr r"
    using Suc.prems(1) unfolding spline_loop_step[OF lt b] .
  have base: "I (i + 1) (push_sample E p acc)"
    using Suc.prems(3)[OF le_refl lt Suc.prems(2) b] .
  have step: "I (j + 1) (push_sample E p a)"
    if "i + 1 \<le> j" "j < N" "I j a" "bezier pts (t_param E N j) = Inr p" for j a p
  proof -
    from that(1) have "i \<le> j" by simp
    from Suc.prems(3)[OF this that(2,3,4)] show ?thesis .
  qed
  have le: "i + 1 \<le> N" using lt by simp
  show ?case
    by (rule Suc.hyps(1)[OF m run base step le])
qed

lemma spline_loop_out_indep:
  "map_sum id fst (spline_loop E pts N i (spline, out1)) =
   map_sum id fst (spline_loop E pts N i (spline, out2))"
proof (induction "N - i" arbitrary: i spline out1 out2)
  case 0
  then have nlt: "\<not> i < N" by simp
  show ?case by (simp add: spline_loop_stop[OF nlt])
next
  case (Suc m)
  then have lt: "i < N" by simp
  have m: "m = N - (i + 1)" using Suc.hyps(2) by simp
  show ?case
  proof (cases "bezier pts (t_param E N i)")
    case (Inl e)
    then show ?thesis using lt by (subst (1 2) spline_loop.simps) simp
  next
    case (Inr p)
    show ?thesis
      unfolding spline_loop_step[OF lt Inr] push_sample_eq
      using Suc.hyps(1)[OF m] .
  qed
qed

lemma spline_loop_out:
  assumes "spline_loop E pts N 0 ([], out0) = Inr (spline, out)"
  shows "out = out0 @ map dist_v spline"
proof -
  have "(\<lambda>j a. snd a = out0 @ map dist_v (fst a)) N (spline, out)"
    by (rule spline_loop_invariant[OF assms]) (auto simp: push_sample_eq)
  then show ?thesis by simp
qed

lemma spline_loop_length:
  assumes "spline_loop E pts N 0 ([], out0) = Inr (spline, out)"
  shows "length spline = N"
proof -
  have "(\<lambda>j a. length (fst a) = j) N (spline, out)"
    by (rule spline_loop_invariant[OF assms]) (auto simp: push_sample_eq)
  then show ?thesis by simp
qed

lemma spline_loop_positions:
  assumes "spline_loop E pts N 0 ([], out0) = Inr (spline, out)"
  shows "\<forall>m<N. bezier pts (t_param E N m) = Inr (position (spline ! m))"
proof -
  have "(\<lambda>j a. length (fst a) = j \<and>
          (\<forall>m<j. bezier pts (t_param E N m) = Inr (position (fst a ! m)))) N (spline, out)"
    by (rule spline_loop_invariant[OF assms])
       (auto simp: push_sample_eq nth_append less_Suc_eq)
  then show ?thesis by simp
qed

lemma spline_loop_dists:
  fixes E :: "'f::{plus,minus,times,inverse,zero,one} fenv"
  assumes "spline_loop E pts N 0 ([], out0) = Inr (spline, out)"
  shows "(spline \<noteq> [] \<longrightarrow> dist_v (spline ! 0) = 0) \<and>
         (\<forall>m. m + 1 < length spline \<longrightarrow>
            dist_v (spline ! (m + 1)) =
              hypot E (x (position (spline ! m)) - x (position (spline ! (m + 1))))
                      (y (position (spline ! m)) - y (position (spline ! (m + 1))))
              + dist_v (spline ! m))"
proof -
  let ?I = "\<lambda>(j::nat) (a :: 'f bezier_vertex list \<times> 'f list).
     (fst a \<noteq> [] \<longrightarrow> dist_v (fst a ! 0) = 0) \<and>
         (\<forall>m. m + 1 < length (fst a) \<longrightarrow>
            dist_v (fst a ! (m + 1)) =
              hypot E (x (position (fst a ! m)) - x (position (fst a ! (m + 1))))
                      (y (position (fst a ! m)) - y (position (fst a ! (m + 1))))
              + dist_v (fst a ! m))"
  have "?I N (spline, out)"
  proof (rule spline_loop_invariant[OF assms])
    show "?I 0 ([], out0)" by simp
  next
    fix j a p
    assume I: "?I j a"
    obtain s ou where a: "a = (s, ou)" by (cases a)
    show "?I (j + 1) (push_sample E p a)"
    proof (cases "s = []")
      case True
      then show ?thesis by (simp add: a push_sample_eq sample_dist_def)
    next
      case False
      then have last: "last s = s ! (length s - 1)" by (simp add: last_conv_nth)
      let ?v = "\<lparr>position = p, color = (180, 255, 180, 255), dist_v = sample_dist E p s\<rparr>"
      have "dist_v ((s @ [?v]) ! (m + 1)) =
              hypot E (x (position ((s @ [?v]) ! m)) - x (position ((s @ [?v]) ! (m + 1))))
                      (y (position ((s @ [?v]) ! m)) - y (position ((s @ [?v]) ! (m + 1))))
              + dist_v ((s @ [?v]) ! m)" if "m + 1 < length (s @ [?v])" for m
      proof (cases "m + 1 < length s")
        case True
        then show ?thesis using I by (simp add: a nth_append)
      next
        case False
        with that have m: "m = length s - 1" by simp
        have lt: "length s - 1 < length s" using \<open>s \<noteq> []\<close> by simp
        show ?thesis
          unfolding m using lt \<open>s \<noteq> []\<close> by (simp add: nth_append sample_dist_def last)
      qed
      moreover have "dist_v ((s @ [?v]) ! 0) = 0"
        using I \<open>s \<noteq> []\<close> by (simp add: a nth_append)
      ultimately show ?thesis
        unfolding a push_sample_eq by simp
    qed
  qed simp
  then show ?thesis by simp
qed

section \<open>What \<^verbatim>\<open>update_bezier\<close> computes\<close>

lemma size_mul_Nil [simp]: "size_mul 0 q = 0"
  by (simp add: size_mul_def)

lemma spline_loop_tessellate:
  "\<exists>spline. spline_loop E pts (size_mul (length pts) q) 0 ([], out0) = Inr (spline, out0 @ map dist_v spline)
      \<and> tessellate E pts q = spline"
proof -
  let ?N = "size_mul (length pts) q"
  have "pts \<noteq> [] \<or> ?N \<le> 0" by (cases pts) simp_all
  then have tot: "\<exists>r. spline_loop E pts ?N 0 acc = Inr r" for acc
    by (rule spline_loop_total)
  obtain spline out where r: "spline_loop E pts ?N 0 ([], out0) = Inr (spline, out)"
    using tot[of "([], out0)"] by (metis surj_pair)
  obtain spline' out' where r': "spline_loop E pts ?N 0 ([], []) = Inr (spline', out')"
    using tot[of "([], [])"] by (metis surj_pair)
  have "spline' = spline"
    using spline_loop_out_indep[of E pts ?N 0 "[]" "[]" out0] by (simp add: r r')
  then have "tessellate E pts q = spline" by (simp add: tessellate_def r')
  moreover have "out = out0 @ map dist_v spline" using r by (rule spline_loop_out)
  ultimately show ?thesis using r by simp
qed

lemma update_bezier_eq:
  "update_bezier E s =
     (if max_size_spline < num_samples s then Inl Length_error else Inr (rebuilt E s))"
proof -
  obtain spline where
    "spline_loop E (bezier_pts s) (size_mul (length (bezier_pts s)) (quality s)) 0 ([], cout s)
       = Inr (spline, cout s @ map dist_v spline)"
    and "tessellate E (bezier_pts s) (quality s) = spline"
    using spline_loop_tessellate[of E "bezier_pts s" "quality s" "cout s"] by blast
  then show ?thesis
    by (simp add: update_bezier_def update_pts_vbo_def update_spline_vbo_def
        num_samples_def rebuilt_def)
qed

lemma tessellate_loop:
  "spline_loop E pts (size_mul (length pts) q) 0 ([], []) =
     Inr (tessellate E pts q, map dist_v (tessellate E pts q))"
  using spline_loop_tessellate[of E pts q "[]"] by auto

lemma length_tessellate [simp]: "length (tessellate E pts q) = size_mul (length pts) q"
  using tessellate_loop by (rule spline_loop_length)

lemma tessellate_Nil [simp]: "tessellate E [] q = []"
proof -
  have "length (tessellate E [] q) = 0" by simp
  then show ?thesis by (simp only: length_0_conv)
qed

lemma tessellate_positions:
  "m < size_mul (length pts) q \<Longrightarrow>
   bezier pts (t_param E (size_mul (length pts) q) m) = Inr (position (tessellate E pts q ! m))"
  using spline_loop_positions[OF tessellate_loop] by blast

lemma tessellate_dist_0: "tessellate E pts q \<noteq> [] \<Longrightarrow> dist_v (tessellate E pts q ! 0) = 0"
  using spline_loop_dists[OF tessellate_loop] by blast

lemma tessellate_dist_Suc:
  "m + 1 < length (tessellate E pts q) \<Longrightarrow>
   dist_v (tessellate E pts q ! (m + 1)) =
     hypot E (x (position (tessellate E pts q ! m)) - x (position (tessellate E pts q ! (m + 1))))
             (y (position (tessellate E pts q ! m)) - y (position (tessellate E pts q ! (m + 1))))
     + dist_v (tessellate E pts q ! m)"
  using spline_loop_dists[OF tessellate_loop] by blast

lemma tessellate_single_position:
  "b \<in> set (tessellate E [v] q) \<Longrightarrow> position b = position v"
proof -
  assume "b \<in> set (tessellate E [v] q)"
  then obtain m where m: "m < size_mul (length [v]) q" and b: "b = tessellate E [v] q ! m"
    by (auto simp: in_set_conv_nth)
  from tessellate_positions[OF m, of E] show ?thesis
    by (simp add: b bezier_single)
qed

section \<open>Events\<close>

lemma size_sub_1:
  assumes "1 \<le> N" and "N < 2 ^ 64"
  shows "size_sub N 1 = N - 1"
proof -
  define M :: nat where "M = 2 ^ 64"
  have M: "1 < M" by (simp add: M_def)
  have lt: "N < M" using assms(2) by (simp add: M_def)
  have "(N + M - 1 mod M) mod M = ((N - 1) + M) mod M"
    using assms(1) M by simp
  also have "\<dots> = (N - 1) mod M" by simp
  also have "\<dots> = N - 1" using lt by simp
  finally show ?thesis unfolding size_sub_def M_def .
qed

lemma size_mul_less: "size_mul a b < 2 ^ 64"
  by (simp add: size_mul_def)

lemma size_mul_exact: "a * b < 2 ^ 64 \<Longrightarrow> size_mul a b = a * b"
  by (simp add: size_mul_def)

lemma max_size_spline_less: "max_size_spline < 2 ^ 63"
  by (simp add: max_size_spline_def)

lemma max_size_pts_less: "max_size_pts < 2 ^ 63"
  by (simp add: max_size_pts_def)

lemma num_samples_Nil: "bezier_pts s = [] \<Longrightarrow> num_samples s = 0"
  by (simp add: num_samples_def)

lemma update_bezier_Inr:
  "update_bezier E s = Inr s' \<longleftrightarrow> num_samples s \<le> max_size_spline \<and> s' = rebuilt E s"
  by (auto simp: update_bezier_eq)

lemma update_bezier_not_Out_of_range: "update_bezier E s \<noteq> Inl Out_of_range"
  by (simp add: update_bezier_eq)

lemma handle_event_not_Out_of_range: "handle_event E s ev \<noteq> Inl Out_of_range"
  by (cases ev) (simp_all add: update_bezier_eq)

lemma handle_event_quality:
  "handle_event E s ev = Inr s' \<Longrightarrow>
   quality s' = (case ev of Key_left \<Rightarrow> if quality s > 1 then quality s - 1 else quality s
                 | Key_right \<Rightarrow> size_inc (quality s) | _ \<Rightarrow> quality s)"
  by (cases ev) (auto simp: update_bezier_eq rebuilt_def split: if_splits)

lemma run_Cons_Inr:
  "run E s (ev # evs) = Inr s' \<longleftrightarrow> (\<exists>s1. handle_event E s ev = Inr s1 \<and> run E s1 evs = Inr s')"
  by (cases "handle_event E s ev") (simp_all del: handle_event.simps)

lemma run_not_Out_of_range: "run E s evs \<noteq> Inl Out_of_range"
proof (induction evs arbitrary: s)
  case Nil
  show ?case by simp
next
  case (Cons ev evs)
  show ?case
  proof (cases "handle_event E s ev")
    case (Inl e)
    then have "e \<noteq> Out_of_range" using handle_event_not_Out_of_range[of E s ev] by auto
    then show ?thesis using Inl by (simp del: handle_event.simps)
  next
    case (Inr s1)
    then show ?thesis using Cons[of s1] by (simp del: handle_event.simps)
  qed
qed

lemma run_quality:
  "1 \<le> quality s \<Longrightarrow> quality s + count_list evs Key_right < 2 ^ 64 \<Longrightarrow> run E s evs = Inr s' \<Longrightarrow>
   1 \<le> quality s' \<and> quality s' \<le> quality s + count_list evs Key_right"
proof (induction evs arbitrary: s)
  case Nil
  then show ?case by simp
next
  case (Cons ev evs)
  obtain s1 where s1: "handle_event E s ev = Inr s1" and r: "run E s1 evs = Inr s'"
    using Cons.prems(3) unfolding run_Cons_Inr by blast
  have q1: "quality s1 = (case ev of Key_left \<Rightarrow> if quality s > 1 then quality s - 1 else quality s
                 | Key_right \<Rightarrow> size_inc (quality s) | _ \<Rightarrow> quality s)"
    using s1 by (rule handle_event_quality)
  have a: "1 \<le> quality s1"
    using q1 Cons.prems(1,2) by (cases ev) (auto simp: size_inc_def)
  have b: "quality s1 + count_list evs Key_right \<le> quality s + count_list (ev # evs) Key_right"
    using q1 Cons.prems(1,2) by (cases ev) (auto simp: size_inc_def)
  then have c: "quality s1 + count_list evs Key_right < 2 ^ 64" using Cons.prems(2) by simp
  from Cons.IH[OF a c r] b show ?case by simp
qed

lemma reachable_quality_wrap: "reachable E (init_state\<lparr>quality := (4 + n) mod 2 ^ 64\<rparr>)"
proof (induction n)
  case 0
  have "(init_state :: 'a state)\<lparr>quality := (4 + 0) mod 2 ^ 64\<rparr> = init_state"
    by (simp add: init_state_def)
  then show ?case using reach_init[of E] by simp
next
  case (Suc n)
  have "handle_event E (init_state\<lparr>quality := (4 + n) mod 2 ^ 64\<rparr>) Key_right =
        Inr (init_state\<lparr>quality := (4 + Suc n) mod 2 ^ 64\<rparr>)"
    by (simp add: update_bezier_eq rebuilt_def num_samples_def init_state_def size_inc_def mod_Suc_eq)
  with Suc show ?case by (rule reach_step)
qed

lemma run_append:
  "run E s (evs @ evs') = (case run E s evs of Inl e \<Rightarrow> Inl e | Inr s' \<Rightarrow> run E s' evs')"
  by (induction evs arbitrary: s) (simp_all del: handle_event.simps split: sum.splits)

lemma reachable_run: "reachable E s \<Longrightarrow> run E s evs = Inr s' \<Longrightarrow> reachable E s'"
proof (induction evs arbitrary: s)
  case Nil
  then show ?case by simp
next
  case (Cons ev evs)
  obtain s1 where s1: "handle_event E s ev = Inr s1" and r: "run E s1 evs = Inr s'"
    using Cons.prems(2) unfolding run_Cons_Inr by blast
  have "reachable E s1" using Cons.prems(1) s1 by (rule reach_step)
  then show ?case using r by (rule Cons.IH)
qed

lemma reachable_iff_run: "reachable E s \<longleftrightarrow> (\<exists>evs. run E init_state evs = Inr s)"
proof
  assume "reachable E s"
  then show "\<exists>evs. run E init_state evs = Inr s"
  proof (induction rule: reachable.induct)
    case reach_init
    have "run E init_state [] = Inr init_state" by simp
    then show ?case by blast
  next
    case (reach_step s ev s')
    then obtain evs where "run E init_state evs = Inr s" by blast
    then have "run E init_state (evs @ [ev]) = Inr s'"
      using reach_step.hyps(2) by (simp add: run_append del: handle_event.simps)
    then show ?case by blast
  qed
next
  assume "\<exists>evs. run E init_state evs = Inr s"
  then show "reachable E s" using reachable_run[OF reach_init] by blast
qed

section \<open>What holds in every reachable state\<close>

text \<open>
  A vector never holds more than its \<^verbatim>\<open>max_size()\<close>, so in every state that the program
  reaches the product of the number of control points and the quality has not wrapped: a
  rebuild that would make it wrap throws first.
\<close>

lemma rebuilt_simps [simp]:
  "bezier_pts (rebuilt E s) = bezier_pts s"
  "quality (rebuilt E s) = quality s"
  "bezier_spline (rebuilt E s) = tessellate E (bezier_pts s) (quality s)"
  "vbo_pts (rebuilt E s) = bezier_pts s"
  "vbo_spline (rebuilt E s) = tessellate E (bezier_pts s) (quality s)"
  "cout (rebuilt E s) = cout s @ map dist_v (tessellate E (bezier_pts s) (quality s))"
  by (simp_all add: rebuilt_def)

lemma product_bound:
  assumes "num_samples t \<le> max_size_spline"
    and "length (bezier_pts t) * quality t < 2 ^ 64"
  shows "length (bezier_pts t) * quality t \<le> max_size_spline"
  using assms by (simp add: num_samples_def size_mul_def)

lemma invariant_step:
  assumes inv: "length (bezier_pts s) \<le> max_size_pts" "quality s < 2 ^ 64"
      "length (bezier_pts s) * quality s \<le> max_size_spline"
    and ev: "handle_event E s ev = Inr s'"
  shows "length (bezier_pts s') \<le> max_size_pts \<and> quality s' < 2 ^ 64 \<and>
         length (bezier_pts s') * quality s' \<le> max_size_spline"
proof (cases ev)
  case (Mouse_left mx my)
  let ?t = "s\<lparr>bezier_pts := bezier_pts s @
                  [\<lparr>position = \<lparr>x = of_int32 E mx, y = of_int32 E my\<rparr>,
                    color = (255, 255, 255, 255)\<rparr>]\<rparr>"
  from ev Mouse_left have lt: "length (bezier_pts s) < max_size_pts"
    and up: "update_bezier E ?t = Inr s'"
    by (auto split: if_splits)
  from up have n: "num_samples ?t \<le> max_size_spline" and s': "s' = rebuilt E ?t"
    by (simp_all add: update_bezier_Inr)
  have "(length (bezier_pts s) + 1) * quality s < 2 ^ 64"
  proof (cases "bezier_pts s = []")
    case True
    then show ?thesis using inv(2) by simp
  next
    case False
    then have "quality s \<le> length (bezier_pts s) * quality s" by (cases "bezier_pts s") simp_all
    then have "quality s \<le> max_size_spline" using inv(3) by (rule order.trans)
    moreover have "(length (bezier_pts s) + 1) * quality s
        = length (bezier_pts s) * quality s + quality s" by simp
    ultimately have "(length (bezier_pts s) + 1) * quality s \<le> 2 * max_size_spline"
      using inv(3) by (simp only: mult_2 add_mono)
    then show ?thesis using max_size_spline_less by simp
  qed
  then have "length (bezier_pts ?t) * quality ?t < 2 ^ 64" by simp
  from product_bound[OF n this] show ?thesis using lt inv(2) by (simp add: s')
next
  case Mouse_right
  show ?thesis
  proof (cases "bezier_pts s = []")
    case True
    then show ?thesis using ev Mouse_right inv by simp
  next
    case False
    let ?t = "s\<lparr>bezier_pts := butlast (bezier_pts s)\<rparr>"
    from ev Mouse_right False have s': "s' = rebuilt E ?t"
      by (simp add: update_bezier_Inr)
    have "(length (bezier_pts s) - 1) * quality s \<le> length (bezier_pts s) * quality s"
      by (rule mult_le_mono1) simp
    then have "(length (bezier_pts s) - 1) * quality s \<le> max_size_spline"
      using inv(3) by (rule order.trans)
    moreover have "length (bezier_pts s) - 1 \<le> max_size_pts" using inv(1) by simp
    ultimately show ?thesis using inv(2) by (simp add: s')
  qed
next
  case Key_left
  show ?thesis
  proof (cases "1 < quality s")
    case False
    then show ?thesis using ev Key_left inv by simp
  next
    case True
    let ?t = "s\<lparr>quality := quality s - 1\<rparr>"
    from ev Key_left True have s': "s' = rebuilt E ?t"
      by (simp add: update_bezier_Inr)
    have "length (bezier_pts s) * (quality s - 1) \<le> length (bezier_pts s) * quality s"
      by (rule mult_le_mono2) simp
    then have "length (bezier_pts s) * (quality s - 1) \<le> max_size_spline"
      using inv(3) by (rule order.trans)
    moreover have "quality s - 1 < 2 ^ 64" using inv(2) by simp
    ultimately show ?thesis using inv(1) by (simp add: s')
  qed
next
  case Key_right
  let ?t = "s\<lparr>quality := size_inc (quality s)\<rparr>"
  from ev Key_right have up: "update_bezier E ?t = Inr s'" by simp
  then have n: "num_samples ?t \<le> max_size_spline" and s': "s' = rebuilt E ?t"
    by (simp_all add: update_bezier_Inr)
  have q: "size_inc (quality s) \<le> quality s + 1" "size_inc (quality s) < 2 ^ 64"
    by (simp_all add: size_inc_def mod_le_divisor order.trans[OF mod_less_eq_dividend])
  have "length (bezier_pts s) * size_inc (quality s) \<le> length (bezier_pts s) * (quality s + 1)"
    using q(1) by (rule mult_le_mono2)
  also have "\<dots> = length (bezier_pts s) * quality s + length (bezier_pts s)" by simp
  also have "\<dots> \<le> max_size_spline + max_size_pts" using inv(1,3) by simp
  also have "\<dots> < 2 ^ 64" using max_size_spline_less max_size_pts_less by simp
  finally have "length (bezier_pts ?t) * quality ?t < 2 ^ 64" by simp
  from product_bound[OF n this] show ?thesis using inv(1) q(2) by (simp add: s')
next
  case Other_event
  then show ?thesis using ev inv by simp
qed

lemma reachable_bounds:
  "reachable E s \<Longrightarrow>
   length (bezier_pts s) \<le> max_size_pts \<and> quality s < 2 ^ 64 \<and>
   length (bezier_pts s) * quality s \<le> max_size_spline"
proof (induction rule: reachable.induct)
  case reach_init
  show ?case by (simp add: init_state_def)
next
  case (reach_step s ev s')
  then show ?case using invariant_step[of s E ev s'] by blast
qed

lemma reachable_num_samples:
  "reachable E s \<Longrightarrow> num_samples s = length (bezier_pts s) * quality s"
proof -
  assume "reachable E s"
  then have "length (bezier_pts s) * quality s \<le> max_size_spline" using reachable_bounds by blast
  then have "length (bezier_pts s) * quality s < 2 ^ 64" using max_size_spline_less by simp
  then show ?thesis by (simp add: num_samples_def size_mul_def)
qed

lemma reachable_rebuilt:
  "reachable E s \<Longrightarrow>
   bezier_spline s = tessellate E (bezier_pts s) (quality s) \<and>
   vbo_pts s = bezier_pts s \<and> vbo_spline s = bezier_spline s"
proof (induction rule: reachable.induct)
  case reach_init
  show ?case by (simp add: init_state_def)
next
  case (reach_step s ev s')
  then show ?case
    by (cases ev) (auto simp: update_bezier_Inr split: if_splits)
qed

lemma reachable_control_points:
  "reachable E s \<Longrightarrow> v \<in> set (bezier_pts s) \<Longrightarrow>
   \<exists>mx my. position v = \<lparr>x = of_int32 E mx, y = of_int32 E my\<rparr>"
proof (induction arbitrary: v rule: reachable.induct)
  case reach_init
  then show ?case by (simp add: init_state_def)
next
  case (reach_step s ev s')
  show ?case
  proof (cases ev)
    case (Mouse_left mx my)
    with reach_step.hyps(2) have
      "bezier_pts s' = bezier_pts s @ [\<lparr>position = \<lparr>x = of_int32 E mx, y = of_int32 E my\<rparr>,
                    color = (255, 255, 255, 255)\<rparr>]"
      by (auto simp: update_bezier_Inr split: if_splits)
    with reach_step.prems reach_step.IH show ?thesis by auto
  next
    case Mouse_right
    with reach_step.hyps(2) have "set (bezier_pts s') \<subseteq> set (bezier_pts s)"
      by (auto simp: update_bezier_Inr split: if_splits dest: in_set_butlastD)
    with reach_step.prems reach_step.IH show ?thesis by blast
  next
    case Key_left
    with reach_step.hyps(2) have "bezier_pts s' = bezier_pts s"
      by (auto simp: update_bezier_Inr split: if_splits)
    with reach_step.prems reach_step.IH show ?thesis by simp
  next
    case Key_right
    with reach_step.hyps(2) have "bezier_pts s' = bezier_pts s"
      by (auto simp: update_bezier_Inr split: if_splits)
    with reach_step.prems reach_step.IH show ?thesis by simp
  next
    case Other_event
    with reach_step.hyps(2) have "bezier_pts s' = bezier_pts s" by simp
    with reach_step.prems reach_step.IH show ?thesis by simp
  qed
qed

subsection \<open>Repeated decrease\<close>

lemma run_decrease:
  "1 \<le> quality s \<Longrightarrow> length (bezier_pts s) * quality s \<le> max_size_spline \<Longrightarrow>
   \<exists>s'. run E s (replicate n Key_left) = Inr s' \<and> 1 \<le> quality s'"
proof (induction n arbitrary: s)
  case 0
  then show ?case by simp
next
  case (Suc n)
  show ?case
  proof (cases "1 < quality s")
    case False
    then have "handle_event E s Key_left = Inr s" by simp
    then show ?thesis using Suc.IH[OF Suc.prems] by (simp del: handle_event.simps)
  next
    case True
    let ?t = "s\<lparr>quality := quality s - 1\<rparr>"
    have "length (bezier_pts s) * (quality s - 1) \<le> length (bezier_pts s) * quality s"
      by (rule mult_le_mono2) simp
    then have "length (bezier_pts s) * (quality s - 1) \<le> max_size_spline"
      using Suc.prems(2) by (rule order.trans)
    then have le: "length (bezier_pts ?t) * quality ?t \<le> max_size_spline"
      by simp
    then have "length (bezier_pts ?t) * quality ?t < 2 ^ 64"
      using max_size_spline_less by simp
    then have "num_samples ?t \<le> max_size_spline"
      using le by (simp add: num_samples_def size_mul_def)
    then have h: "handle_event E s Key_left = Inr (rebuilt E ?t)"
      using True by (simp add: update_bezier_eq)
    have "1 \<le> quality (rebuilt E ?t)" using True by simp
    moreover have "length (bezier_pts (rebuilt E ?t)) * quality (rebuilt E ?t) \<le> max_size_spline"
      using le by simp
    ultimately show ?thesis using Suc.IH[of "rebuilt E ?t"] h by (simp del: handle_event.simps)
  qed
qed

section \<open>Where a non-finite value can come from\<close>

lemma closed_underD:
  assumes "closed_under E fin"
  shows "fin 0" "fin 1"
    "\<And>a b. fin a \<Longrightarrow> fin b \<Longrightarrow> fin (a + b)"
    "\<And>a b. fin a \<Longrightarrow> fin b \<Longrightarrow> fin (a - b)"
    "\<And>a b. fin a \<Longrightarrow> fin b \<Longrightarrow> fin (a * b)"
    "\<And>a b. fin a \<Longrightarrow> fin b \<Longrightarrow> fin (hypot E a b)"
    "\<And>i d. 0 < d \<Longrightarrow> fin (of_size E i / of_size E d)"
    "\<And>n. fin (of_int32 E n)"
  using assms unfolding closed_under_def by blast+

lemma lerp_code_fin:
  assumes c: "closed_under E fin" and t: "fin t" and p: "fin_vec fin p" and q: "fin_vec fin q"
  shows "fin_vec fin (lerp_code t p q)"
proof -
  note d = closed_underD[OF c]
  have "fin (1 - t)" using d(2) t by (rule d(4))
  then show ?thesis
    using p q t unfolding fin_vec_def lerp_code_def by (simp add: d(3) d(5))
qed

lemma bezier_inner_fin:
  assumes c: "closed_under E fin" and t: "fin t"
  shows "length points = n \<Longrightarrow> \<forall>p \<in> set points. fin_vec fin p \<Longrightarrow>
         \<forall>p \<in> set (bezier_inner n k i t points). fin_vec fin p"
proof (induction "n - (i + k)" arbitrary: i points)
  case 0
  then have "\<not> i + k + 1 < n" by simp
  then show ?case using "0.prems" by (simp add: bezier_inner_stop)
next
  case (Suc m)
  show ?case
  proof (cases "i + k + 1 < n")
    case True
    have m: "m = n - (i + 1 + k)" using Suc.hyps(2) by simp
    let ?ps = "points[i := lerp_code t (points ! i) (points ! (i + 1))]"
    have "fin_vec fin (points ! i)" "fin_vec fin (points ! (i + 1))"
      using True Suc.prems by simp_all
    then have "fin_vec fin (lerp_code t (points ! i) (points ! (i + 1)))"
      using c t by (intro lerp_code_fin)
    then have "\<forall>p \<in> set ?ps. fin_vec fin p"
      using Suc.prems(2) by (auto dest!: set_update_subset_insert[THEN subsetD])
    moreover have "length ?ps = n" using Suc.prems(1) by simp
    ultimately show ?thesis
      unfolding bezier_inner_step[OF True] using Suc.hyps(1)[OF m] by blast
  next
    case False
    then show ?thesis using Suc.prems by (simp add: bezier_inner_stop)
  qed
qed

lemma bezier_outer_fin:
  assumes c: "closed_under E fin" and t: "fin t"
  shows "length points = n \<Longrightarrow> \<forall>p \<in> set points. fin_vec fin p \<Longrightarrow>
         \<forall>p \<in> set (bezier_outer n k t points). fin_vec fin p"
proof (induction "n - k" arbitrary: k points)
  case 0
  then have "\<not> k + 1 < n" by simp
  then show ?case using "0.prems" by (simp add: bezier_outer_stop)
next
  case (Suc m)
  show ?case
  proof (cases "k + 1 < n")
    case True
    have m: "m = n - (k + 1)" using Suc.hyps(2) by simp
    have "\<forall>p \<in> set (bezier_inner n k 0 t points). fin_vec fin p"
      using bezier_inner_fin[OF c t Suc.prems] .
    moreover have "length (bezier_inner n k 0 t points) = n" using Suc.prems(1) by simp
    ultimately show ?thesis
      unfolding bezier_outer_step[OF True] using Suc.hyps(1)[OF m] by blast
  next
    case False
    then show ?thesis using Suc.prems by (simp add: bezier_outer_stop)
  qed
qed

lemma bezier_fin:
  assumes c: "closed_under E fin" and t: "fin t"
    and pts: "\<forall>v \<in> set pts. fin_vec fin (position v)"
    and b: "bezier pts t = Inr p"
  shows "fin_vec fin p"
proof -
  have ne: "pts \<noteq> []" using b by (auto simp: bezier_empty)
  let ?r = "bezier_outer (length pts) 0 t (map position pts)"
  have "\<forall>p \<in> set ?r. fin_vec fin p"
    using pts by (intro bezier_outer_fin[OF c t]) simp_all
  moreover have "0 < length ?r" using ne by simp
  ultimately have "fin_vec fin (?r ! 0)" using nth_mem by blast
  then show ?thesis using b by (simp add: bezier_Inr[OF ne])
qed

lemma push_sample_fin:
  assumes c: "closed_under E fin" and p: "fin_vec fin p"
    and a: "\<forall>b \<in> set (fst a). fin_sample fin b"
  shows "\<forall>b \<in> set (fst (push_sample E p a)). fin_sample fin b"
proof -
  note d = closed_underD[OF c]
  obtain spline out where acc: "a = (spline, out)" by (cases a)
  have "fin (sample_dist E p spline)"
  proof (cases "spline = []")
    case True
    then show ?thesis by (simp add: sample_dist_def d(1))
  next
    case False
    then have "fin_sample fin (last spline)" using a acc by simp
    then show ?thesis
      using False p unfolding sample_dist_def fin_sample_def fin_vec_def
      by (simp add: d(3) d(4) d(6))
  qed
  then show ?thesis
    using a p by (auto simp: acc push_sample_eq fin_sample_def)
qed

lemma tessellate_fin:
  fixes E :: "'f::{plus,minus,times,inverse,zero,one} fenv"
  assumes c: "closed_under E fin"
    and pts: "\<forall>v \<in> set pts. fin_vec fin (position v)"
    and N: "length pts = 1 \<or> size_mul (length pts) q \<noteq> 1"
  shows "\<forall>b \<in> set (tessellate E pts q). fin_sample fin b"
proof -
  let ?N = "size_mul (length pts) q"
  have "(\<lambda>(j::nat) (a :: 'f bezier_vertex list \<times> 'f list). \<forall>b \<in> set (fst a). fin_sample fin b) ?N
          (tessellate E pts q, map dist_v (tessellate E pts q))"
  proof (rule spline_loop_invariant[OF tessellate_loop])
    show "\<forall>b \<in> set (fst (([], []) :: 'f bezier_vertex list \<times> 'f list)). fin_sample fin b" by simp
  next
    fix j and a :: "'f bezier_vertex list \<times> 'f list" and p
    assume j: "j < ?N" and a: "\<forall>b \<in> set (fst a). fin_sample fin b"
      and b: "bezier pts (t_param E ?N j) = Inr p"
    have "fin_vec fin p"
    proof (cases "length pts = 1")
      case True
      then obtain v where v: "pts = [v]" by (cases pts) auto
      then have "p = position v" using b by (simp add: bezier_single)
      then show ?thesis using pts v by simp
    next
      case False
      with N j have "2 \<le> ?N" by simp
      then have "1 \<le> ?N" and pos: "0 < ?N - 1" by simp_all
      then have "size_sub ?N 1 = ?N - 1"
        using size_mul_less[of "length pts" q] by (intro size_sub_1)
      then have "fin (t_param E ?N j)"
        using closed_underD(7)[OF c pos] by (simp add: t_param_def)
      then show ?thesis using c pts b by (intro bezier_fin)
    qed
    then show "\<forall>b \<in> set (fst (push_sample E p a)). fin_sample fin b"
      using c a by (intro push_sample_fin)
  qed simp
  then show ?thesis by simp
qed

lemma reachable_fin:
  assumes r: "reachable E s" and c: "closed_under E fin"
  shows "\<forall>b \<in> set (bezier_spline s). fin_sample fin b"
proof -
  have pts: "\<forall>v \<in> set (bezier_pts s). fin_vec fin (position v)"
  proof
    fix v assume "v \<in> set (bezier_pts s)"
    then obtain mx my where "position v = \<lparr>x = of_int32 E mx, y = of_int32 E my\<rparr>"
      using reachable_control_points[OF r] by blast
    then show "fin_vec fin (position v)"
      using closed_underD(8)[OF c] by (simp add: fin_vec_def)
  qed
  have n: "size_mul (length (bezier_pts s)) (quality s) = length (bezier_pts s) * quality s"
    using reachable_num_samples[OF r] by (simp add: num_samples_def)
  have "length (bezier_pts s) = 1 \<or> size_mul (length (bezier_pts s)) (quality s) \<noteq> 1"
    unfolding n by auto
  from tessellate_fin[OF c pts this] show ?thesis
    using reachable_rebuilt[OF r] by simp
qed

lemma closed_under_nan_env: "closed_under nan_env (\<lambda>a. a \<noteq> NaN)"
  unfolding closed_under_def
  by (auto simp: nan_env_def zero_nanreal_def one_nanreal_def plus_nanreal_def minus_nanreal_def
      times_nanreal_def divide_nanreal_def split: nanreal.splits)

section \<open>Exact real arithmetic: the first and the last sample\<close>

lemma t_param_real_first:
  "2 \<le> N \<Longrightarrow> N < 2 ^ 64 \<Longrightarrow> t_param real_env N 0 = 0"
  by (simp add: t_param_def real_env_def)

lemma t_param_real_last:
  assumes "2 \<le> N" and "N < 2 ^ 64"
  shows "t_param real_env N (N - 1) = 1"
proof -
  have "size_sub N 1 = N - 1" using assms by (intro size_sub_1) simp_all
  moreover have "real (N - 1) \<noteq> 0" using assms(1) by simp
  ultimately show ?thesis by (simp add: t_param_def real_env_def)
qed

lemma tessellate_endpoints:
  assumes ne: "pts \<noteq> []" and N: "2 \<le> size_mul (length pts) q"
  shows "tessellate real_env pts q \<noteq> []"
    and "position (hd (tessellate real_env pts q)) = position (hd pts)"
    and "position (last (tessellate real_env pts q)) = position (last pts)"
proof -
  let ?N = "size_mul (length pts) q"
  let ?T = "tessellate real_env pts q"
  have lt: "?N < 2 ^ 64" by (rule size_mul_less)
  have len: "length ?T = ?N" by simp
  show nonempty: "?T \<noteq> []"
  proof
    assume "?T = []"
    then have "length ?T = 0" by (simp only: list.size)
    with len N show False by simp
  qed
  have "bezier pts (t_param real_env ?N 0) = Inr (position (?T ! 0))"
    using N by (intro tessellate_positions) simp
  then have "bezier pts 0 = Inr (position (?T ! 0))"
    by (simp only: t_param_real_first[OF N lt])
  then have "position (?T ! 0) = position (hd pts)"
    using ne by (simp add: bezier_at_0)
  then show "position (hd ?T) = position (hd pts)"
    using nonempty by (simp add: hd_conv_nth)
  have "bezier pts (t_param real_env ?N (?N - 1)) = Inr (position (?T ! (?N - 1)))"
    using N by (intro tessellate_positions) simp
  then have "bezier pts 1 = Inr (position (?T ! (?N - 1)))"
    by (simp only: t_param_real_last[OF N lt])
  then have "position (?T ! (?N - 1)) = position (last pts)"
    using ne by (simp add: bezier_at_1)
  then show "position (last ?T) = position (last pts)"
    using nonempty by (simp add: last_conv_nth)
qed

section \<open>Three runs of the program\<close>

lemma tessellate_single_1:
  "tessellate E [v] 1 = [\<lparr>position = position v, color = (180, 255, 180, 255), dist_v = 0\<rparr>]"
  by (simp add: tessellate_def size_mul_def spline_loop.simps bezier_single push_sample_def)

lemma run_nan_one_point:
  "run nan_env init_state [Key_left, Key_left, Key_left, Mouse_left 3 4] =
     Inr ((state_of [control_point (Fin 3) (Fin 4)] 1)
            \<lparr>bezier_spline := [sample (Fin 3) (Fin 4) (Fin 0)], cout := [Fin 0],
              vbo_pts := [control_point (Fin 3) (Fin 4)],
              vbo_spline := [sample (Fin 3) (Fin 4) (Fin 0)]\<rparr>)"
  by (simp add: eval_defs init_state_def nan_defs Let_def)

lemma run_real_two_points:
  "run real_env init_state [Key_left, Key_left, Key_left, Mouse_left 0 0, Mouse_left 100 0] =
     Inr ((state_of [control_point 0 0, control_point 100 0] 1)
            \<lparr>bezier_spline := [sample 0 0 0, sample 100 0 100], cout := [0, 0, 100],
              vbo_pts := [control_point 0 0, control_point 100 0],
              vbo_spline := [sample 0 0 0, sample 100 0 100]\<rparr>)"
  by (simp add: eval_defs init_state_def Let_def)

section \<open>The claims\<close>

subsection \<open>Degenerate inputs\<close>

text \<open>
  Claim C1, as stated: for every control-point list with fewer than 2 entries and every
  quality at least 1, the rebuild produces an empty sequence. The code has no such rule:
  one control point at \<open>(100, 50)\<close> and quality 1 give \<open>N = 1\<close> and one sample.
\<close>

theorem C1_counterexample:
  "length (bezier_pts (state_of [control_point (100::real) 50] 1)) < 2 \<and>
   1 \<le> quality (state_of [control_point (100::real) 50] 1) \<and>
   update_bezier real_env (state_of [control_point 100 50] 1) =
     Inr ((state_of [control_point 100 50] 1)
            \<lparr>bezier_spline := [sample 100 50 0], cout := [0],
              vbo_pts := [control_point 100 50], vbo_spline := [sample 100 50 0]\<rparr>) \<and>
   [sample (100::real) 50 0] \<noteq> []"
  by (simp add: eval_defs)

text \<open>
  Claim C1, amended: with no control point the rebuild produces an empty sequence, for
  every quality; with exactly one control point it produces as many samples as the quality
  says, each of them at that control point (and throws when the quality exceeds the
  \<^verbatim>\<open>max_size()\<close> of the spline). This holds for every interpretation of the
  floating-point operations.
\<close>

theorem C1_degenerate_inputs:
  "(bezier_pts s = [] \<longrightarrow>
      (\<exists>s'. update_bezier E s = Inr s' \<and> bezier_spline s' = [])) \<and>
   (bezier_pts s = [v] \<and> quality s \<le> max_size_spline \<longrightarrow>
      (\<exists>s'. update_bezier E s = Inr s' \<and> length (bezier_spline s') = quality s \<and>
            (\<forall>b \<in> set (bezier_spline s'). position b = position v))) \<and>
   (bezier_pts s = [v] \<and> max_size_spline < quality s \<and> quality s < 2 ^ 64 \<longrightarrow>
      update_bezier E s = Inl Length_error)"
proof -
  have "quality s mod 2 ^ 64 = quality s" if "quality s \<le> max_size_spline"
    using that max_size_spline_less by simp
  then show ?thesis
    by (auto simp: update_bezier_eq num_samples_def size_mul_def tessellate_single_position)
qed

theorem C1_degenerate_inputs_witness:
  "bezier_pts (state_of [control_point (7::real) 9] 3) = [control_point 7 9] \<and>
   quality (state_of [control_point (7::real) 9] 3) \<le> max_size_spline \<and>
   (\<exists>s'. update_bezier real_env (state_of [control_point 7 9] 3) = Inr s' \<and>
         length (bezier_spline s') = 3 \<and>
         (\<forall>b \<in> set (bezier_spline s'). position b = \<lparr>x = 7, y = 9\<rparr>))"
  using C1_degenerate_inputs[of "state_of [control_point (7::real) 9] 3" real_env "control_point 7 9"]
  by (simp add: state_of_def control_point_def max_size_spline_def)

text \<open>
  Claim C2, as stated: the rebuild guards the case \<open>N \<le> 1\<close>, yields an empty
  tessellation there and never stores a non-finite value. There is no guard: with one
  control point at \<open>(3, 4)\<close> and quality 1, \<open>N\<close> is 1 and the tessellation has one sample.
\<close>

theorem C2_counterexample:
  "size_mul (length (bezier_pts (state_of [control_point (3::real) 4] 1)))
            (quality (state_of [control_point (3::real) 4] 1)) \<le> 1 \<and>
   update_bezier real_env (state_of [control_point 3 4] 1) =
     Inr ((state_of [control_point 3 4] 1)
            \<lparr>bezier_spline := [sample 3 4 0], cout := [0],
              vbo_pts := [control_point 3 4], vbo_spline := [sample 3 4 0]\<rparr>) \<and>
   [sample (3::real) 4 0] \<noteq> []"
  by (simp add: eval_defs)

text \<open>
  Claim C2, amended: the rebuild has no guard for \<open>N \<le> 1\<close>. When \<open>N = 0\<close> the
  tessellation is empty. In every state that the program reaches, \<open>N = 1\<close> means one
  control point and quality 1, and the tessellation is then the single sample at the
  control point with arc length \<open>0\<close>: the parameter \<open>0 / 0\<close> is computed, but the evaluator
  does not read it when there is one point. And the rebuild never stores a non-finite
  value: in every reachable state every coordinate and every arc length of the spline has
  any property \<open>fin\<close> that \<open>0\<close>, \<open>1\<close> and the casts of integers have and that the
  operations of the program keep, the division only for a divisor that is the cast of a
  positive size. That is, a value that can only come from a division by zero is never
  stored; overflow is not modelled. The witness is a run in the arithmetic with a NaN,
  where the parameter of the one sample is the NaN and the sample is not.
\<close>

theorem C2_no_guard:
  "(num_samples s = 0 \<longrightarrow>
      (\<exists>s'. update_bezier E s = Inr s' \<and> bezier_spline s' = [])) \<and>
   (bezier_pts s = [v] \<and> quality s = 1 \<longrightarrow>
      (\<exists>s'. update_bezier E s = Inr s' \<and>
            bezier_spline s' = [\<lparr>position = position v, color = (180, 255, 180, 255), dist_v = 0\<rparr>])) \<and>
   (reachable E r \<and> num_samples r \<le> 1 \<longrightarrow>
      bezier_spline r = [] \<or>
      (\<exists>u. bezier_pts r = [u] \<and> quality r = 1 \<and>
           bezier_spline r = [\<lparr>position = position u, color = (180, 255, 180, 255), dist_v = 0\<rparr>])) \<and>
   (reachable E r \<and> closed_under E fin \<longrightarrow>
      (\<forall>b \<in> set (bezier_spline r). fin_sample fin b))"
proof -
  have a: "tessellate E (bezier_pts s) (quality s) = []" if "num_samples s = 0"
    using length_tessellate[of E "bezier_pts s" "quality s"] that
    by (simp only: num_samples_def length_0_conv)
  have b: "bezier_spline r = [] \<or>
      (\<exists>u. bezier_pts r = [u] \<and> quality r = 1 \<and>
           bezier_spline r = [\<lparr>position = position u, color = (180, 255, 180, 255), dist_v = 0\<rparr>])"
    if r: "reachable E r" and n: "num_samples r \<le> 1"
  proof -
    have spl: "bezier_spline r = tessellate E (bezier_pts r) (quality r)"
      using reachable_rebuilt[OF r] by simp
    have prod: "num_samples r = length (bezier_pts r) * quality r"
      using r by (rule reachable_num_samples)
    show ?thesis
    proof (cases "num_samples r = 0")
      case True
      then have "length (bezier_spline r) = 0" by (simp add: spl num_samples_def)
      then show ?thesis by simp
    next
      case False
      with n have "num_samples r = 1" by simp
      with prod have "length (bezier_pts r) * quality r = 1" by simp
      then have "length (bezier_pts r) = 1" and q: "quality r = 1" by simp_all
      then obtain u where u: "bezier_pts r = [u]" by (cases "bezier_pts r") auto
      show ?thesis using spl tessellate_single_1[of E u] by (simp add: u q)
    qed
  qed
  show ?thesis
    using a b reachable_fin[of E r fin] tessellate_single_1[of E v]
    by (auto simp: update_bezier_eq num_samples_def size_mul_def max_size_spline_def)
qed

theorem C2_no_guard_witness:
  "reachable nan_env
     ((state_of [control_point (Fin 3) (Fin 4)] 1)
        \<lparr>bezier_spline := [sample (Fin 3) (Fin 4) (Fin 0)], cout := [Fin 0],
          vbo_pts := [control_point (Fin 3) (Fin 4)],
          vbo_spline := [sample (Fin 3) (Fin 4) (Fin 0)]\<rparr>) \<and>
   num_samples
     ((state_of [control_point (Fin 3) (Fin 4)] 1)
        \<lparr>bezier_spline := [sample (Fin 3) (Fin 4) (Fin 0)], cout := [Fin 0],
          vbo_pts := [control_point (Fin 3) (Fin 4)],
          vbo_spline := [sample (Fin 3) (Fin 4) (Fin 0)]\<rparr>) \<le> 1 \<and>
   closed_under nan_env (\<lambda>a. a \<noteq> NaN) \<and>
   t_param nan_env 1 0 = NaN \<and>
   fin_sample (\<lambda>a. a \<noteq> NaN) (sample (Fin 3) (Fin 4) (Fin 0))"
proof -
  let ?r = "(state_of [control_point (Fin 3) (Fin 4)] 1)
        \<lparr>bezier_spline := [sample (Fin 3) (Fin 4) (Fin 0)], cout := [Fin 0],
          vbo_pts := [control_point (Fin 3) (Fin 4)],
          vbo_spline := [sample (Fin 3) (Fin 4) (Fin 0)]\<rparr>"
  have r: "reachable nan_env ?r"
    using run_nan_one_point reachable_iff_run[of nan_env ?r] by blast
  have n: "num_samples ?r \<le> 1" by (simp add: num_samples_def size_mul_def state_of_def)
  have t: "t_param nan_env 1 0 = NaN" by (simp add: t_param_def size_sub_def nan_defs)
  show ?thesis
    using C2_no_guard[of ?r nan_env "control_point (Fin 3) (Fin 4)" ?r "\<lambda>a. a \<noteq> NaN"]
      r n t closed_under_nan_env
    by (simp add: fin_sample_def fin_vec_def sample_def control_point_def)
qed

subsection \<open>The evaluator\<close>

text \<open>
  Claim C3: for two control points the evaluator returns the linear interpolation of the
  two positions, which is the first position at \<open>t = 0\<close> and the second at \<open>t = 1\<close>; for
  one control point it returns that point; and for every non-empty list it computes the
  de Casteljau rounds of the specification. Numbers are taken in any commutative ring
  with unit (exact arithmetic, the reals among them); \<open>t\<close> need not lie in \<open>[0, 1]\<close>.
\<close>

theorem C3_evaluator:
  fixes t :: "'f::comm_ring_1"
  shows "bezier [a, b] t = Inr (lerp_spec t (position a) (position b)) \<and>
         bezier [a, b] 0 = Inr (position a) \<and>
         bezier [a, b] 1 = Inr (position b) \<and>
         bezier [a] t = Inr (position a) \<and>
         (vertices \<noteq> [] \<longrightarrow> bezier vertices t = Inr (evaluate_spec (map position vertices) t))"
  using bezier_at_0[of "[a, b]"] bezier_at_1[of "[a, b]"]
  by (simp add: bezier_two lerp_code_spec bezier_single bezier_refines)

theorem C3_evaluator_witness:
  "[control_point (0::real) 0, control_point 100 0, control_point 100 100] \<noteq> [] \<and>
   bezier [control_point (0::real) 0, control_point 100 0, control_point 100 100] (1 / 2) =
     Inr (evaluate_spec (map position [control_point 0 0, control_point 100 0, control_point 100 100]) (1 / 2)) \<and>
   evaluate_spec (map position [control_point (0::real) 0, control_point 100 0, control_point 100 100]) (1 / 2)
     = \<lparr>x = 75, y = 25\<rparr>"
  using C3_evaluator[of "control_point (0::real) 0" "control_point 100 0" "1 / 2"
      "[control_point 0 0, control_point 100 0, control_point 100 100]"]
  by (simp add: evaluate_spec_def lerp_spec_def control_point_def upt_rec)

subsection \<open>Arc length\<close>

text \<open>
  Claim C4: in every tessellated sequence the arc length of the first sample is exactly
  \<open>0\<close>, and each later arc length is the one before plus the distance between the two
  sample positions, so that the arc lengths do not decrease. The first two facts hold for
  every interpretation of the floating-point operations (the distance being whatever
  \<^verbatim>\<open>std::hypot\<close> returns); the order is stated for exact real arithmetic, where the
  distance is the Euclidean one. There is a tessellated sequence exactly when \<open>N\<close> does
  not exceed the \<^verbatim>\<open>max_size()\<close> of the spline; otherwise the rebuild throws.
\<close>

theorem C4_arc_length:
  "(num_samples s \<le> max_size_spline \<longrightarrow>
     (\<exists>s'. update_bezier E s = Inr s' \<and>
        (bezier_spline s' \<noteq> [] \<longrightarrow> dist_v (bezier_spline s' ! 0) = 0) \<and>
        (\<forall>m. m + 1 < length (bezier_spline s') \<longrightarrow>
           dist_v (bezier_spline s' ! (m + 1)) =
             hypot E (x (position (bezier_spline s' ! m)) - x (position (bezier_spline s' ! (m + 1))))
                     (y (position (bezier_spline s' ! m)) - y (position (bezier_spline s' ! (m + 1))))
             + dist_v (bezier_spline s' ! m)))) \<and>
   (num_samples r \<le> max_size_spline \<longrightarrow>
     (\<exists>r'. update_bezier real_env r = Inr r' \<and>
        (\<forall>m. m + 1 < length (bezier_spline r') \<longrightarrow>
           dist_v (bezier_spline r' ! (m + 1)) =
             sqrt ((x (position (bezier_spline r' ! m)) - x (position (bezier_spline r' ! (m + 1))))\<^sup>2 +
                   (y (position (bezier_spline r' ! m)) - y (position (bezier_spline r' ! (m + 1))))\<^sup>2)
             + dist_v (bezier_spline r' ! m) \<and>
           dist_v (bezier_spline r' ! m) \<le> dist_v (bezier_spline r' ! (m + 1))))) \<and>
   (max_size_spline < num_samples s \<longrightarrow> update_bezier E s = Inl Length_error)"
proof -
  have "dist_v (tessellate real_env (bezier_pts r) (quality r) ! (m + 1)) =
           sqrt ((x (position (tessellate real_env (bezier_pts r) (quality r) ! m))
                  - x (position (tessellate real_env (bezier_pts r) (quality r) ! (m + 1))))\<^sup>2 +
                 (y (position (tessellate real_env (bezier_pts r) (quality r) ! m))
                  - y (position (tessellate real_env (bezier_pts r) (quality r) ! (m + 1))))\<^sup>2)
           + dist_v (tessellate real_env (bezier_pts r) (quality r) ! m)"
    if "m + 1 < length (tessellate real_env (bezier_pts r) (quality r))" for m
    using tessellate_dist_Suc[OF that] by (simp add: real_env_def)
  moreover have "dist_v (tessellate real_env (bezier_pts r) (quality r) ! m)
        \<le> dist_v (tessellate real_env (bezier_pts r) (quality r) ! (m + 1))"
    if "m + 1 < length (tessellate real_env (bezier_pts r) (quality r))" for m
    using tessellate_dist_Suc[OF that] by (simp add: real_env_def)
  ultimately show ?thesis
    using tessellate_dist_0[of E "bezier_pts s" "quality s"]
      tessellate_dist_Suc[of _ E "bezier_pts s" "quality s"]
    by (simp add: update_bezier_eq)
qed

theorem C4_arc_length_witness:
  "num_samples (state_of [control_point (0::real) 0, control_point 3 4] 1) \<le> max_size_spline \<and>
   (\<exists>r'. update_bezier real_env (state_of [control_point 0 0, control_point 3 4] 1) = Inr r' \<and>
      bezier_spline r' \<noteq> [] \<and> (0::nat) + 1 < length (bezier_spline r') \<and>
      dist_v (bezier_spline r' ! 0) = 0 \<and>
      dist_v (bezier_spline r' ! (0 + 1)) = 5 \<and>
      dist_v (bezier_spline r' ! 0) \<le> dist_v (bezier_spline r' ! (0 + 1)))"
  using C4_arc_length[of "state_of [control_point 0 0, control_point 3 4] 1" real_env
                         "state_of [control_point 0 0, control_point 3 4] 1"]
  by (simp add: eval_defs num_samples_def)

subsection \<open>Endpoints\<close>

text \<open>
  Claim C5: with at least 2 control points and a quality of at least 1, the first sample
  lies on the first control point and the last sample on the last control point (in exact
  real arithmetic). This holds in every state that the program reaches; it holds for
  every rebuild of such control points and quality whose product does not exceed the
  \<^verbatim>\<open>max_size()\<close> of the spline, and those rebuilds return; and it holds for every rebuild
  that returns with at least 2 samples.
\<close>

theorem C5_endpoints:
  "(reachable real_env s \<and> 2 \<le> length (bezier_pts s) \<and> 1 \<le> quality s \<longrightarrow>
      bezier_spline s \<noteq> [] \<and>
      position (hd (bezier_spline s)) = position (hd (bezier_pts s)) \<and>
      position (last (bezier_spline s)) = position (last (bezier_pts s))) \<and>
   (2 \<le> length (bezier_pts t) \<and> 1 \<le> quality t \<and>
    length (bezier_pts t) * quality t \<le> max_size_spline \<longrightarrow>
      (\<exists>t'. update_bezier real_env t = Inr t' \<and> bezier_spline t' \<noteq> [] \<and>
            position (hd (bezier_spline t')) = position (hd (bezier_pts t)) \<and>
            position (last (bezier_spline t')) = position (last (bezier_pts t)))) \<and>
   (bezier_pts t \<noteq> [] \<and> 2 \<le> num_samples t \<and> update_bezier real_env t = Inr t' \<longrightarrow>
      bezier_spline t' \<noteq> [] \<and>
      position (hd (bezier_spline t')) = position (hd (bezier_pts t)) \<and>
      position (last (bezier_spline t')) = position (last (bezier_pts t)))"
proof -
  have two: "2 \<le> length (bezier_pts u) * quality u"
    if "2 \<le> length (bezier_pts u)" "1 \<le> quality u" for u :: "real state"
  proof -
    have "2 * 1 \<le> length (bezier_pts u) * quality u" using that by (rule mult_le_mono)
    then show ?thesis by simp
  qed
  have A: "bezier_spline s \<noteq> [] \<and>
      position (hd (bezier_spline s)) = position (hd (bezier_pts s)) \<and>
      position (last (bezier_spline s)) = position (last (bezier_pts s))"
    if r: "reachable real_env s" and l: "2 \<le> length (bezier_pts s)" and q: "1 \<le> quality s"
  proof -
    have ne: "bezier_pts s \<noteq> []" using l by auto
    have "2 \<le> size_mul (length (bezier_pts s)) (quality s)"
      using two[OF l q] reachable_num_samples[OF r] by (simp add: num_samples_def)
    from tessellate_endpoints[OF ne this] show ?thesis
      using reachable_rebuilt[OF r] by simp
  qed
  have C: "bezier_spline u' \<noteq> [] \<and>
      position (hd (bezier_spline u')) = position (hd (bezier_pts t)) \<and>
      position (last (bezier_spline u')) = position (last (bezier_pts t))"
    if ne: "bezier_pts t \<noteq> []" and n: "2 \<le> num_samples t"
      and u: "update_bezier real_env t = Inr u'" for u'
  proof -
    have "u' = rebuilt real_env t" using u by (simp add: update_bezier_Inr)
    then show ?thesis
      using tessellate_endpoints[OF ne n[unfolded num_samples_def]] by simp
  qed
  have B: "\<exists>t'. update_bezier real_env t = Inr t' \<and> bezier_spline t' \<noteq> [] \<and>
            position (hd (bezier_spline t')) = position (hd (bezier_pts t)) \<and>
            position (last (bezier_spline t')) = position (last (bezier_pts t))"
    if l: "2 \<le> length (bezier_pts t)" and q: "1 \<le> quality t"
      and m: "length (bezier_pts t) * quality t \<le> max_size_spline"
  proof -
    have ne: "bezier_pts t \<noteq> []" using l by auto
    have "length (bezier_pts t) * quality t < 2 ^ 64" using m max_size_spline_less by simp
    then have n: "num_samples t = length (bezier_pts t) * quality t"
      by (simp add: num_samples_def size_mul_def)
    then have u: "update_bezier real_env t = Inr (rebuilt real_env t)"
      using m by (simp add: update_bezier_eq)
    have "2 \<le> num_samples t" using two[OF l q] n by simp
    from C[OF ne this u] u show ?thesis by blast
  qed
  from A B C show ?thesis by blast
qed

theorem C5_endpoints_witness:
  "reachable real_env
     ((state_of [control_point 0 0, control_point 100 0] 1)
        \<lparr>bezier_spline := [sample 0 0 0, sample 100 0 100], cout := [0, 0, 100],
          vbo_pts := [control_point 0 0, control_point 100 0],
          vbo_spline := [sample 0 0 0, sample 100 0 100]\<rparr>) \<and>
   2 \<le> length [control_point (0::real) 0, control_point 100 0] \<and> (1::nat) \<le> 1 \<and>
   position (hd [sample (0::real) 0 0, sample 100 0 100]) = position (control_point 0 0) \<and>
   position (last [sample (0::real) 0 0, sample 100 0 100]) = position (control_point 100 0) \<and>
   2 \<le> length (bezier_pts (state_of [control_point (0::real) 0, control_point 100 0, control_point 100 100] 4)) \<and>
   1 \<le> quality (state_of [control_point (0::real) 0, control_point 100 0, control_point 100 100] 4) \<and>
   length (bezier_pts (state_of [control_point (0::real) 0, control_point 100 0, control_point 100 100] 4))
     * quality (state_of [control_point (0::real) 0, control_point 100 0, control_point 100 100] 4)
     \<le> max_size_spline \<and>
   (\<exists>t'. update_bezier real_env (state_of [control_point 0 0, control_point 100 0, control_point 100 100] 4) = Inr t' \<and>
         bezier_spline t' \<noteq> [] \<and>
         position (hd (bezier_spline t')) = \<lparr>x = 0, y = 0\<rparr> \<and>
         position (last (bezier_spline t')) = \<lparr>x = 100, y = 100\<rparr>)"
proof -
  let ?s = "(state_of [control_point 0 0, control_point 100 0] 1)
        \<lparr>bezier_spline := [sample 0 0 0, sample 100 0 100], cout := [0, 0, 100],
          vbo_pts := [control_point 0 0, control_point 100 0],
          vbo_spline := [sample 0 0 0, sample 100 0 100]\<rparr> :: real state"
  let ?t = "state_of [control_point (0::real) 0, control_point 100 0, control_point 100 100] 4"
  have r: "reachable real_env ?s"
    using run_real_two_points reachable_iff_run[of real_env ?s] by blast
  have h: "2 \<le> length (bezier_pts ?t)" "1 \<le> quality ?t"
    "length (bezier_pts ?t) * quality ?t \<le> max_size_spline"
    by (simp_all add: state_of_def max_size_spline_def)
  show ?thesis
    using C5_endpoints[of ?s ?t] r h
    by (simp add: state_of_def control_point_def sample_def)
qed

subsection \<open>Density\<close>

text \<open>
  Claim C6: the tessellation has exactly as many samples as the number of control points
  times the quality. This holds in every state that the program reaches (whatever the
  product is, so also when it exceeds 1), and for every rebuild whose product does not
  exceed the \<^verbatim>\<open>max_size()\<close> of the spline; those rebuilds return. It holds for every
  interpretation of the floating-point operations.
\<close>

theorem C6_density:
  "(reachable E s \<longrightarrow> length (bezier_spline s) = length (bezier_pts s) * quality s) \<and>
   (length (bezier_pts t) * quality t \<le> max_size_spline \<longrightarrow>
      (\<exists>t'. update_bezier E t = Inr t' \<and>
            length (bezier_spline t') = length (bezier_pts t) * quality t))"
proof -
  have "length (bezier_spline s) = length (bezier_pts s) * quality s" if r: "reachable E s"
    using reachable_rebuilt[OF r] reachable_num_samples[OF r] by (simp add: num_samples_def)
  moreover have "\<exists>t'. update_bezier E t = Inr t' \<and>
            length (bezier_spline t') = length (bezier_pts t) * quality t"
    if m: "length (bezier_pts t) * quality t \<le> max_size_spline"
  proof -
    have "length (bezier_pts t) * quality t < 2 ^ 64" using m max_size_spline_less by simp
    then have n: "num_samples t = length (bezier_pts t) * quality t"
      by (simp add: num_samples_def size_mul_def)
    then show ?thesis using m by (simp add: update_bezier_eq num_samples_def)
  qed
  ultimately show ?thesis by blast
qed

theorem C6_density_witness:
  "reachable real_env
     ((state_of [control_point 0 0, control_point 100 0] 1)
        \<lparr>bezier_spline := [sample 0 0 0, sample 100 0 100], cout := [0, 0, 100],
          vbo_pts := [control_point 0 0, control_point 100 0],
          vbo_spline := [sample 0 0 0, sample 100 0 100]\<rparr>) \<and>
   1 < length [control_point (0::real) 0, control_point 100 0] * 1 \<and>
   length [sample (0::real) 0 0, sample 100 0 100] = length [control_point (0::real) 0, control_point 100 0] * 1 \<and>
   length (bezier_pts (state_of [control_point (0::real) 0, control_point 100 0, control_point 100 100] 4))
     * quality (state_of [control_point (0::real) 0, control_point 100 0, control_point 100 100] 4)
     \<le> max_size_spline \<and>
   (\<exists>t'. update_bezier real_env (state_of [control_point 0 0, control_point 100 0, control_point 100 100] 4) = Inr t' \<and>
         length (bezier_spline t') = 12)"
proof -
  let ?s = "(state_of [control_point 0 0, control_point 100 0] 1)
        \<lparr>bezier_spline := [sample 0 0 0, sample 100 0 100], cout := [0, 0, 100],
          vbo_pts := [control_point 0 0, control_point 100 0],
          vbo_spline := [sample 0 0 0, sample 100 0 100]\<rparr> :: real state"
  let ?t = "state_of [control_point (0::real) 0, control_point 100 0, control_point 100 100] 4"
  have r: "reachable real_env ?s"
    using run_real_two_points reachable_iff_run[of real_env ?s] by blast
  have h: "length (bezier_pts ?t) * quality ?t \<le> max_size_spline"
    by (simp add: state_of_def max_size_spline_def)
  show ?thesis
    using C6_density[of real_env ?s ?t] r h by (simp add: state_of_def)
qed

subsection \<open>Quality\<close>

text \<open>
  Claim C7, as stated: the quality is at least 1 in every reachable state, and the increase
  has no upper bound. The quality is a \<^verbatim>\<open>size_t\<close>: the state with quality \<open>2 ^ 64 - 1\<close> is
  reachable (by \<open>2 ^ 64 - 5\<close> presses of the right arrow key, with no control point, so
  that \<open>N\<close> is \<open>0\<close> and nothing throws), and one more press wraps the quality to \<open>0\<close>.
\<close>

theorem C7_counterexample:
  "reachable real_env (init_state\<lparr>quality := 2 ^ 64 - 1\<rparr>) \<and>
   1 \<le> quality ((init_state :: real state)\<lparr>quality := 2 ^ 64 - 1\<rparr>) \<and>
   handle_event real_env (init_state\<lparr>quality := 2 ^ 64 - 1\<rparr>) Key_right
     = Inr (init_state\<lparr>quality := 0\<rparr>) \<and>
   \<not> 1 \<le> quality ((init_state :: real state)\<lparr>quality := 0\<rparr>)"
proof -
  have "reachable real_env (init_state\<lparr>quality := (4 + (2 ^ 64 - 5)) mod 2 ^ 64\<rparr>)"
    by (rule reachable_quality_wrap)
  moreover have "(4 + (2 ^ 64 - 5)) mod 2 ^ 64 = (2 ^ 64 - 1 :: nat)" by simp
  ultimately have "reachable real_env (init_state\<lparr>quality := 2 ^ 64 - 1\<rparr>)" by simp
  moreover have "handle_event real_env (init_state\<lparr>quality := 2 ^ 64 - 1\<rparr>) Key_right
     = Inr (init_state\<lparr>quality := 0\<rparr>)"
    by (simp add: update_bezier_eq rebuilt_def num_samples_def init_state_def size_inc_def)
  ultimately show ?thesis by simp
qed

text \<open>
  Claim C7, amended: the left arrow key decrements the quality only when it is greater
  than 1, and otherwise leaves the whole state as it is (nothing is tessellated again); so
  it keeps a quality of at least 1 at least 1, and from a reachable state any number of
  presses of it returns with a quality of at least 1. The right arrow key increments the
  quality unconditionally, modulo \<open>2 ^ 64\<close>. The quality stays at least 1 along every run
  of events that starts with a quality of at least 1 and presses the right arrow key fewer
  times than are left up to \<open>2 ^ 64\<close>; from the initial state (quality 4) that is every run
  with fewer than \<open>2 ^ 64 - 4\<close> such presses.
\<close>

theorem C7_quality_floor:
  "(handle_event E s Key_left = Inr s' \<longrightarrow>
      quality s' = (if 1 < quality s then quality s - 1 else quality s) \<and>
      (1 \<le> quality s \<longrightarrow> 1 \<le> quality s')) \<and>
   (\<not> 1 < quality s \<longrightarrow> handle_event E s Key_left = Inr s) \<and>
   (handle_event E s Key_right = Inr s' \<longrightarrow> quality s' = (quality s + 1) mod 2 ^ 64) \<and>
   (reachable E s \<and> 1 \<le> quality s \<longrightarrow>
      (\<exists>s1. run E s (replicate n Key_left) = Inr s1 \<and> 1 \<le> quality s1)) \<and>
   (1 \<le> quality s \<and> quality s + count_list evs Key_right < 2 ^ 64 \<and> run E s evs = Inr s' \<longrightarrow>
      1 \<le> quality s') \<and>
   (count_list evs Key_right < 2 ^ 64 - 4 \<and> run E init_state evs = Inr s' \<longrightarrow>
      reachable E s' \<and> 1 \<le> quality s')"
proof -
  have left: "quality s' = (if 1 < quality s then quality s - 1 else quality s) \<and>
      (1 \<le> quality s \<longrightarrow> 1 \<le> quality s')" if "handle_event E s Key_left = Inr s'"
    using handle_event_quality[OF that] by auto
  have noop: "handle_event E s Key_left = Inr s" if "\<not> 1 < quality s"
    using that by simp
  have right: "quality s' = (quality s + 1) mod 2 ^ 64" if "handle_event E s Key_right = Inr s'"
    using handle_event_quality[OF that] by (simp add: size_inc_def)
  have dec: "\<exists>s1. run E s (replicate n Key_left) = Inr s1 \<and> 1 \<le> quality s1"
    if "reachable E s" "1 \<le> quality s"
    using run_decrease[OF that(2)] reachable_bounds[OF that(1)] by blast
  have runs: "1 \<le> quality s'"
    if "1 \<le> quality s" "quality s + count_list evs Key_right < 2 ^ 64" "run E s evs = Inr s'"
    using run_quality[OF that] by blast
  have init: "reachable E s' \<and> 1 \<le> quality s'"
    if c: "count_list evs Key_right < 2 ^ 64 - 4" and r: "run E init_state evs = Inr s'"
  proof -
    have "1 \<le> quality (init_state :: 'a state)" by (simp add: init_state_def)
    moreover have "quality (init_state :: 'a state) + count_list evs Key_right < 2 ^ 64"
      using c by (simp add: init_state_def)
    ultimately have "1 \<le> quality s'" using r run_quality by blast
    then show ?thesis using r reachable_iff_run[of E s'] by blast
  qed
  from left noop right dec runs init show ?thesis by blast
qed

theorem C7_quality_floor_witness:
  "\<not> 1 < quality (state_of [control_point (1::real) 2, control_point 3 4] 1) \<and>
   handle_event real_env (state_of [control_point 1 2, control_point 3 4] 1) Key_left
     = Inr (state_of [control_point 1 2, control_point 3 4] 1) \<and>
   reachable real_env init_state \<and> 1 \<le> quality (init_state :: real state) \<and>
   (\<exists>s1. run real_env init_state (replicate 5 Key_left) = Inr s1 \<and> 1 \<le> quality s1) \<and>
   count_list [Key_right, Key_left, Key_left, Key_left] Key_right < 2 ^ 64 - 4 \<and>
   run real_env init_state [Key_right, Key_left, Key_left, Key_left] = Inr (init_state\<lparr>quality := 2\<rparr>) \<and>
   reachable real_env (init_state\<lparr>quality := 2\<rparr>) \<and>
   1 \<le> quality ((init_state :: real state)\<lparr>quality := 2\<rparr>)"
proof -
  let ?u = "state_of [control_point (1::real) 2, control_point 3 4] 1"
  have r: "run real_env init_state [Key_right, Key_left, Key_left, Key_left] = Inr (init_state\<lparr>quality := 2\<rparr>)"
    by (simp add: eval_defs init_state_def)
  have i: "reachable real_env init_state" by (rule reach_init)
  show ?thesis
    using C7_quality_floor[of real_env ?u ?u 0 "[]"]
      C7_quality_floor[of real_env init_state "init_state\<lparr>quality := 2\<rparr>" 5
        "[Key_right, Key_left, Key_left, Key_left]"] r i
    by (simp add: state_of_def init_state_def)
qed

subsection \<open>Scenario A\<close>

text \<open>
  Claim C8: the control points \<open>(0, 0)\<close> and \<open>(100, 0)\<close> with quality 1 give exactly 2
  samples: \<open>(0, 0)\<close> with arc length \<open>0\<close> and \<open>(100, 0)\<close> with arc length \<open>100\<close>. The
  colours of the control points and the rest of the state do not matter. The arithmetic
  is that of the reals; every value that occurs is an integer below \<open>2 ^ 24\<close>, which
  binary32 represents exactly.
\<close>

theorem C8_scenario_A:
  "\<exists>s'. update_bezier real_env
          (s\<lparr>bezier_pts := [\<lparr>position = \<lparr>x = 0, y = 0\<rparr>, color = c0\<rparr>,
                            \<lparr>position = \<lparr>x = 100, y = 0\<rparr>, color = c1\<rparr>],
             quality := 1\<rparr>) = Inr s' \<and>
        bezier_spline s' = [sample 0 0 0, sample 100 0 100] \<and>
        length (bezier_spline s') = 2"
proof -
  have "tessellate real_env [\<lparr>position = \<lparr>x = 0, y = 0\<rparr>, color = c0\<rparr>,
                            \<lparr>position = \<lparr>x = 100, y = 0\<rparr>, color = c1\<rparr>] 1
        = [sample 0 0 0, sample 100 0 100]"
    by (simp add: tessellate_def eval_defs)
  then show ?thesis
    by (simp add: update_bezier_eq rebuilt_def num_samples_def size_mul_def max_size_spline_def)
qed

subsection \<open>The evaluator is not called on an empty list\<close>

text \<open>
  Claim C9: the program never calls the evaluator with an empty list of control points.
  In the model such a call is the error \<open>Out_of_range\<close>, which the loop and with it
  \<^verbatim>\<open>update_bezier\<close>, the event handler and the run of events would return. The loop of
  \<^verbatim>\<open>update_bezier\<close> always returns a spline, and \<^verbatim>\<open>update_bezier\<close>, the event handler and
  the run never return that error (the one error they can return is the
  \<^verbatim>\<open>std::length_error\<close> of a vector). When the list is empty, \<open>N\<close> is \<open>0\<close> and the loop
  returns at once what it was given: the spline stays empty and nothing is printed.
\<close>

theorem C9_evaluator_not_called_on_empty:
  fixes E :: "'f::{plus,minus,times,inverse,zero,one} fenv" and t :: 'f
  shows "bezier ([] :: 'f vertex list) t = Inl Out_of_range \<and>
         (i < N \<longrightarrow> spline_loop E [] N i acc = Inl Out_of_range) \<and>
         (\<exists>r. spline_loop E (bezier_pts s) (num_samples s) 0 acc = Inr r) \<and>
         update_bezier E s \<noteq> Inl Out_of_range \<and>
         handle_event E s ev \<noteq> Inl Out_of_range \<and>
         run E s evs \<noteq> Inl Out_of_range \<and>
         (bezier_pts s = [] \<longrightarrow>
            num_samples s = 0 \<and>
            spline_loop E (bezier_pts s) (num_samples s) 0 acc = Inr acc \<and>
            (\<exists>s'. update_bezier E s = Inr s' \<and> bezier_spline s' = [] \<and> cout s' = cout s))"
proof -
  have "spline_loop E [] N i acc = Inl Out_of_range" if "i < N"
    using that by (rule spline_loop_fail) (rule bezier_empty)
  moreover have "spline_loop E [] 0 0 acc = Inr acc"
    by (rule spline_loop_stop) simp
  moreover have "\<exists>r. spline_loop E (bezier_pts s) (num_samples s) 0 acc = Inr r"
  proof (rule spline_loop_total)
    show "bezier_pts s \<noteq> [] \<or> num_samples s \<le> 0"
      by (cases "bezier_pts s") (simp_all add: num_samples_def)
  qed
  ultimately show ?thesis
    using run_not_Out_of_range[of E s evs] handle_event_not_Out_of_range[of E s ev]
    by (auto simp: bezier_empty update_bezier_eq num_samples_def)
qed

theorem C9_evaluator_not_called_on_empty_witness:
  "(0::nat) < 1 \<and> spline_loop real_env [] 1 0 ([], []) = Inl Out_of_range \<and>
   bezier_pts (init_state :: real state) = [] \<and>
   num_samples (init_state :: real state) = 0 \<and>
   spline_loop real_env (bezier_pts init_state) 0 0 ([], []) = Inr ([], []) \<and>
   (\<exists>s'. update_bezier real_env init_state = Inr s' \<and> bezier_spline s' = [] \<and> cout s' = [])"
  using C9_evaluator_not_called_on_empty[of 0 0 1 real_env "([], [])" init_state]
  by (simp add: init_state_def num_samples_def)

subsection \<open>What \<^verbatim>\<open>update_bezier\<close> leaves alone\<close>

text \<open>
  Claim C10: \<^verbatim>\<open>update_bezier\<close> leaves the control points and the quality as they are. It
  replaces the spline by the tessellation of the control points, which does not depend on
  the spline or the buffers of before, and uploads the control points and the new spline
  to the two buffers. Its one other effect is the debug output: the arc length of every
  new sample is appended to what has been printed. When \<open>N\<close> exceeds the \<^verbatim>\<open>max_size()\<close>
  of the spline it throws instead, and the program ends.
\<close>

theorem C10_frame:
  "(num_samples s \<le> max_size_spline \<longrightarrow>
     (\<exists>s'. update_bezier E s = Inr s' \<and>
        bezier_pts s' = bezier_pts s \<and> quality s' = quality s \<and>
        bezier_spline s' = tessellate E (bezier_pts s) (quality s) \<and>
        vbo_pts s' = bezier_pts s \<and> vbo_spline s' = bezier_spline s' \<and>
        cout s' = cout s @ map dist_v (bezier_spline s'))) \<and>
   (max_size_spline < num_samples s \<longrightarrow> update_bezier E s = Inl Length_error) \<and>
   update_bezier E (s\<lparr>bezier_spline := old_spline, vbo_pts := old_vbo_pts,
                       vbo_spline := old_vbo_spline\<rparr>) = update_bezier E s"
  by (simp add: update_bezier_eq num_samples_def rebuilt_def)

theorem C10_frame_witness:
  "num_samples (state_of [control_point (0::real) 0, control_point 3 4] 1) \<le> max_size_spline \<and>
   update_bezier real_env (state_of [control_point 0 0, control_point 3 4] 1) =
     Inr ((state_of [control_point 0 0, control_point 3 4] 1)
            \<lparr>bezier_spline := [sample 0 0 0, sample 3 4 5], cout := [0, 5],
              vbo_pts := [control_point 0 0, control_point 3 4],
              vbo_spline := [sample 0 0 0, sample 3 4 5]\<rparr>) \<and>
   update_bezier real_env
     ((state_of [control_point 0 0, control_point 3 4] 1)
        \<lparr>bezier_spline := [sample 9 9 9], vbo_pts := [], vbo_spline := [sample 9 9 9]\<rparr>) =
     update_bezier real_env (state_of [control_point 0 0, control_point 3 4] 1)"
proof -
  have "update_bezier real_env (state_of [control_point 0 0, control_point 3 4] 1) =
     Inr ((state_of [control_point 0 0, control_point 3 4] 1)
            \<lparr>bezier_spline := [sample 0 0 0, sample 3 4 5], cout := [0, 5],
              vbo_pts := [control_point 0 0, control_point 3 4],
              vbo_spline := [sample 0 0 0, sample 3 4 5]\<rparr>)"
    by (simp add: eval_defs)
  then show ?thesis
    using C10_frame[of "state_of [control_point (0::real) 0, control_point 3 4] 1" real_env
        "[sample 9 9 9]" "[]" "[sample 9 9 9]"]
    by (simp add: num_samples_def size_mul_def state_of_def max_size_spline_def)
qed

end
